theory Spec2Isabelle
  imports Complex_Main "HOL-Library.Sublist" "HOL-Library.Multiset" "HOL-Library.AList"
    "HOL-Library.Product_Lexorder" "HOL-Library.Log_Nat"
begin

section \<open>Python values shared by the notebooks\<close>

text \<open>
  The notebooks are Python. Exceptions are values of \<open>py_error\<close>; a call that may raise
  returns \<open>py_error + 'a\<close> with \<open>Inl\<close> for the exception. Python floats are modelled
  as \<open>real\<close> where the code stores or compares them; the float arithmetic of pandas is a
  parameter of the county summary, and the two float divisions of \<open>create_image\<close>, whose
  rounding decides a claim, are modelled bit for bit.
\<close>

datatype py_error = ZeroDivisionError | IndexError | KeyError | AttributeError
  | ValueError | HTTPError

text \<open>A GeoJSON position is \<open>(x, y)\<close>, that is (longitude, latitude).\<close>

type_synonym coord = "real \<times> real"

datatype geometry = Point coord | Polygon "coord list list"

record datetime =
  year :: nat
  month :: nat
  day :: nat
  seconds :: nat

text \<open>
  An asset of an item: \<open>asset.href\<close>, its media type and its extra fields (such as
  \<open>table:storage_options\<close>).
\<close>

record asset_ref =
  href :: string
  media_type :: string
  extra_fields :: "(string \<times> string) list"

text \<open>
  A STAC item as the notebooks read it: \<open>item.id\<close>, \<open>item.geometry\<close>,
  \<open>item.datetime\<close> (pystac allows it to be absent), \<open>item.collection_id\<close>,
  \<open>item.properties\<close> and \<open>item.assets\<close> by role name.
\<close>

record item =
  item_id :: string
  item_geometry :: geometry
  item_datetime :: "datetime option"
  collection_id :: string
  properties :: "(string \<times> string) list"
  assets :: "(string \<times> asset_ref) list"

section \<open>The footprint browser (\<open>browse\<close>)\<close>

text \<open>
  The cell builds \<open>m = ipyleaflet.Map(zoom=3)\<close>, sets \<open>m.layout.width\<close>, creates
  \<open>layer = ipyleaflet.GeoJSON()\<close> and calls \<open>m.add(layer)\<close>. The map holds its layers
  by reference, so the widgets live in a store of layer objects and the map lists their
  addresses.
\<close>

datatype layer_kind = TileLayer | GeoJSON

record layer_obj =
  kind :: layer_kind
  url :: string
  data :: "geometry option"

record leaflet_map =
  center :: coord
  zoom :: nat
  layers :: "nat list"
  layout_width :: string

record widgets =
  m_map :: leaflet_map
  objs :: "nat \<rightharpoonup> layer_obj"
  stdout :: "string list"

text \<open>
  \<open>shapely\<close> is a library: the centroid of a geometry is a parameter, \<open>None\<close> when the
  geometry has no centroid coordinates (then \<open>coords[0]\<close> raises). So is
  \<open>datetime.isoformat\<close>.
\<close>

definition reversed_pair :: "coord \<Rightarrow> coord" where
  \<comment> \<open>\<open>tuple(p)[::-1]\<close> on a pair\<close>
  "reversed_pair p = (snd p, fst p)"

definition browse ::
  "(geometry \<Rightarrow> coord option) \<Rightarrow> (datetime \<Rightarrow> string) \<Rightarrow> nat \<Rightarrow> item \<Rightarrow> widgets
     \<Rightarrow> widgets \<times> (py_error + unit)" where
  "browse centroid isoformat layer it st =
     (case centroid (item_geometry it) of
        None \<Rightarrow> (st, Inl IndexError)
      | Some c \<Rightarrow>
         (let st1 = st\<lparr>m_map := (m_map st)\<lparr>center := reversed_pair c\<rparr>\<rparr> in
          case objs st1 layer of
            None \<Rightarrow> (st1, Inl AttributeError)
          | Some l \<Rightarrow>
             (let st2 = st1\<lparr>objs := (objs st1)(layer \<mapsto> l\<lparr>data := Some (item_geometry it)\<rparr>)\<rparr> in
              case item_datetime it of
                None \<Rightarrow> (st2, Inl AttributeError)
              | Some d \<Rightarrow>
                 (st2\<lparr>stdout := stdout st2 @ [item_id it @ '' '' @ isoformat d]\<rparr>, Inr ()))))"

text \<open>The state the cell leaves before the first selection.\<close>

definition initial_widgets :: widgets where
  "initial_widgets =
     \<lparr>m_map = \<lparr>center = (0, 0), zoom = 3, layers = [0, 1], layout_width = ''600px''\<rparr>,
      objs = [0 \<mapsto> \<lparr>kind = TileLayer,
                      url = ''https://tile.openstreetmap.org/{z}/{x}/{y}.png'', data = None\<rparr>,
              1 \<mapsto> \<lparr>kind = GeoJSON, url = [], data = None\<rparr>],
      stdout = []\<rparr>"

section \<open>Choosing the scene of largest overlap (\<open>area_of_overlap\<close>)\<close>

text \<open>
  \<open>shape(...).intersection(...)\<close> and \<open>.area\<close> are shapely's; they are parameters.
  The areas are floats, and so is their quotient: \<open>truediv a b\<close> stands for the float
  \<open>a / b\<close> with \<open>b\<close> not zero, and is a parameter as well. A zero \<open>target_area\<close>
  raises, as Python's division does.
\<close>

definition area_of_overlap ::
  "(real \<Rightarrow> real \<Rightarrow> real) \<Rightarrow> (geometry \<Rightarrow> geometry \<Rightarrow> geometry) \<Rightarrow> (geometry \<Rightarrow> real)
     \<Rightarrow> geometry \<Rightarrow> item \<Rightarrow> py_error + real" where
  "area_of_overlap truediv intersection area area_of_interest it =
     (let target_area = area area_of_interest;
          overlap_area = area (intersection (item_geometry it) area_of_interest)
      in if target_area = 0 then Inl ZeroDivisionError
         else Inr (truediv overlap_area target_area))"

text \<open>
  \<open>sorted(xs, key=k, reverse=True)\<close>: the keys are computed once, in input order, and
  the first exception leaves the sort. With \<open>reverse=True\<close> CPython reverses the list,
  sorts it stably in ascending key order and reverses the result, comparing keys only.
\<close>

fun decorate :: "('a \<Rightarrow> py_error + 'k) \<Rightarrow> 'a list \<Rightarrow> py_error + ('k \<times> 'a) list" where
  "decorate k [] = Inr []"
| "decorate k (x # xs) =
     (case k x of
        Inl e \<Rightarrow> Inl e
      | Inr v \<Rightarrow> (case decorate k xs of Inl e \<Rightarrow> Inl e | Inr r \<Rightarrow> Inr ((v, x) # r)))"

definition sorted_reverse :: "('a \<Rightarrow> py_error + real) \<Rightarrow> 'a list \<Rightarrow> py_error + 'a list" where
  "sorted_reverse k xs =
     (case decorate k xs of
        Inl e \<Rightarrow> Inl e
      | Inr kxs \<Rightarrow> Inr (map snd (rev (sort_key fst (rev kxs)))))"

definition first_of :: "'a list \<Rightarrow> py_error + 'a" where
  \<comment> \<open>\<open>xs[0]\<close>\<close>
  "first_of xs = (case xs of [] \<Rightarrow> Inl IndexError | x # _ \<Rightarrow> Inr x)"

definition choose_item ::
  "(real \<Rightarrow> real \<Rightarrow> real) \<Rightarrow> (geometry \<Rightarrow> geometry \<Rightarrow> geometry) \<Rightarrow> (geometry \<Rightarrow> real)
     \<Rightarrow> geometry \<Rightarrow> item list \<Rightarrow> py_error + item" where
  \<comment> \<open>\<open>sorted(search.items(), key=area_of_overlap, reverse=True)[0]\<close>\<close>
  "choose_item truediv intersection area area_of_interest items =
     (case sorted_reverse (area_of_overlap truediv intersection area area_of_interest) items of
        Inl e \<Rightarrow> Inl e
      | Inr ys \<Rightarrow> first_of ys)"

text \<open>The ratio \<open>intersection(item, AOI).area / AOI.area\<close> as the key computes it.\<close>

definition overlap_ratio ::
  "(real \<Rightarrow> real \<Rightarrow> real) \<Rightarrow> (geometry \<Rightarrow> geometry \<Rightarrow> geometry) \<Rightarrow> (geometry \<Rightarrow> real)
     \<Rightarrow> geometry \<Rightarrow> item \<Rightarrow> real" where
  "overlap_ratio truediv intersection area area_of_interest it =
     truediv (area (intersection (item_geometry it) area_of_interest)) (area area_of_interest)"

section \<open>Python float division (\<open>w/h\<close>, \<open>target_w/aspect\<close>, \<open>int(...)\<close>)\<close>

text \<open>
  \<open>aspect = w/h\<close> divides two Python ints and \<open>target_w/aspect\<close> an int by a float:
  both give the IEEE 754 binary64 number nearest to the exact quotient, ties to the even
  mantissa. A finite double is kept as a pair \<open>(m, k)\<close> of integers that stands for
  \<open>m * 2^k\<close>. The exponent is not bounded: overflow and subnormal numbers are out of reach
  for the sizes of an image.
\<close>

type_synonym double = "int \<times> int"

definition dval :: "double \<Rightarrow> real" where
  "dval d = real_of_int (fst d) * 2 powi (snd d)"

definition binade :: "int \<Rightarrow> int \<Rightarrow> int" where
  \<comment> \<open>the \<open>e\<close> with \<open>2^e \<le> p/q < 2^(e+1)\<close>, for positive \<open>p\<close> and \<open>q\<close>\<close>
  "binade p q =
     (let d = bitlen p - bitlen q
      in if q * 2 ^ nat d \<le> p * 2 ^ nat (- d) then d else d - 1)"

definition round_half_even :: "int \<Rightarrow> int \<Rightarrow> int" where
  \<comment> \<open>the integer nearest to \<open>a/b\<close> for \<open>b > 0\<close>, a tie going to the even one\<close>
  "round_half_even a b =
     (let q = a div b; r = a mod b
      in if 2 * r < b then q else if b < 2 * r then q + 1 else if even q then q else q + 1)"

definition div_round :: "int \<Rightarrow> int \<Rightarrow> double" where
  \<comment> \<open>\<open>p/q\<close> rounded to 53 significant bits, for \<open>p \<ge> 0\<close> and \<open>q > 0\<close>\<close>
  "div_round p q =
     (if p = 0 then (0, 0)
      else let e = binade p q; s = 52 - e
           in (round_half_even (p * 2 ^ nat s) (q * 2 ^ nat (- s)), e - 52))"

definition int_truediv :: "int \<Rightarrow> int \<Rightarrow> py_error + double" where
  \<comment> \<open>\<open>a / b\<close> on non-negative ints\<close>
  "int_truediv a b = (if b = 0 then Inl ZeroDivisionError else Inr (div_round a b))"

definition float_truediv :: "int \<Rightarrow> double \<Rightarrow> py_error + double" where
  \<comment> \<open>\<open>a / x\<close> for a non-negative int \<open>a\<close> below \<open>2^53\<close> and a non-negative float \<open>x\<close>\<close>
  "float_truediv a x =
     (if fst x = 0 then Inl ZeroDivisionError
      else Inr (div_round (a * 2 ^ nat (- snd x)) (fst x * 2 ^ nat (snd x))))"

definition py_int :: "double \<Rightarrow> int" where
  \<comment> \<open>\<open>int(x)\<close>: truncation towards zero\<close>
  "py_int x =
     (if 0 \<le> snd x then fst x * 2 ^ nat (snd x)
      else sgn (fst x) * (\<bar>fst x\<bar> div 2 ^ nat (- snd x)))"

section \<open>Rendering a scene (\<open>create_image\<close>)\<close>

text \<open>
  \<open>rasterio\<close>, \<open>numpy\<close> and \<open>PIL\<close> are libraries. What \<open>create_image\<close> needs of
  them is a record of functions: opening a dataset, its \<open>crs\<close> and \<open>transform\<close>,
  \<open>features.bounds\<close>, \<open>warp.transform_bounds\<close>, \<open>windows.from_bounds\<close>,
  \<open>ds.read\<close>, which arrays \<open>Image.fromarray\<close> accepts, and \<open>Image.resize\<close>;
  each call that can raise returns a sum. An array is its shape and its elements;
  \<open>np.transpose\<close> with \<open>axes=[1, 2, 0]\<close> and the size of the image that
  \<open>Image.fromarray\<close> makes (width = columns, height = rows) are written out.
\<close>

type_synonym bounds = "real \<times> real \<times> real \<times> real"

record ndarray =
  shape :: "nat \<times> nat \<times> nat"
  elems :: "nat \<Rightarrow> nat \<Rightarrow> nat \<Rightarrow> nat"

record image =
  size_wh :: "nat \<times> nat"
  pixels :: ndarray

record ('ds, 'crs, 'tf, 'win) raster_lib =
  rasterio_open :: "string \<Rightarrow> py_error + 'ds"
  ds_crs :: "'ds \<Rightarrow> 'crs"
  ds_transform :: "'ds \<Rightarrow> 'tf"
  features_bounds :: "geometry \<Rightarrow> py_error + bounds"
  transform_bounds :: "string \<Rightarrow> 'crs \<Rightarrow> bounds \<Rightarrow> py_error + bounds"
  from_bounds :: "bounds \<Rightarrow> 'tf \<Rightarrow> py_error + 'win"
  ds_read :: "'ds \<Rightarrow> nat list \<Rightarrow> 'win \<Rightarrow> py_error + ndarray"
  pil_accepts :: "ndarray \<Rightarrow> bool"
  resize :: "image \<Rightarrow> nat \<times> int \<Rightarrow> py_error + image"

definition transpose_120 :: "ndarray \<Rightarrow> ndarray" where
  \<comment> \<open>\<open>np.transpose(a, axes=[1, 2, 0])\<close>\<close>
  "transpose_120 a =
     (case shape a of (b, h, w) \<Rightarrow> \<lparr>shape = (h, w, b), elems = (\<lambda>i j k. elems a k i j)\<rparr>)"

definition fromarray :: "('ds, 'crs, 'tf, 'win) raster_lib \<Rightarrow> ndarray \<Rightarrow> py_error + image" where
  \<comment> \<open>\<open>Image.fromarray\<close> of a rows x columns x bands array\<close>
  "fromarray lib a =
     (if pil_accepts lib a
      then (case shape a of (h, w, b) \<Rightarrow> Inr \<lparr>size_wh = (w, h), pixels = a\<rparr>)
      else Inl ValueError)"

definition asset_href :: "item \<Rightarrow> string \<Rightarrow> py_error + string" where
  \<comment> \<open>\<open>item.assets[role].href\<close>\<close>
  "asset_href it role =
     (case map_of (assets it) role of None \<Rightarrow> Inl KeyError | Some a \<Rightarrow> Inr (href a))"

definition read_window ::
  "('ds, 'crs, 'tf, 'win) raster_lib \<Rightarrow> geometry \<Rightarrow> 'ds \<Rightarrow> py_error + ndarray" where
  \<comment> \<open>the body of \<open>with rasterio.open(href) as ds\<close>\<close>
  "read_window lib area_of_interest ds =
     (case features_bounds lib area_of_interest of
        Inl e \<Rightarrow> Inl e
      | Inr aoi_bounds \<Rightarrow>
         (case transform_bounds lib ''epsg:4326'' (ds_crs lib ds) aoi_bounds of
            Inl e \<Rightarrow> Inl e
          | Inr warped_aoi_bounds \<Rightarrow>
             (case from_bounds lib warped_aoi_bounds (ds_transform lib ds) of
                Inl e \<Rightarrow> Inl e
              | Inr aoi_window \<Rightarrow> ds_read lib ds [1, 2, 3] aoi_window)))"

definition target_size :: "nat \<Rightarrow> nat \<Rightarrow> py_error + nat \<times> int" where
  \<comment> \<open>\<open>aspect = w/h; target_w = 800; target_h = (int)(target_w/aspect)\<close>\<close>
  "target_size w h =
     (case int_truediv (int w) (int h) of
        Inl e \<Rightarrow> Inl e
      | Inr aspect \<Rightarrow>
         (case float_truediv 800 aspect of
            Inl e \<Rightarrow> Inl e
          | Inr q \<Rightarrow> Inr (800, py_int q)))"

definition create_image ::
  "('ds, 'crs, 'tf, 'win) raster_lib \<Rightarrow> (string \<Rightarrow> string) \<Rightarrow> geometry \<Rightarrow> item
     \<Rightarrow> py_error + image" where
  \<comment> \<open>\<open>pc_sign\<close> is \<open>pc.sign\<close>; the \<open>print\<close> of the item's datetime is left out\<close>
  "create_image lib pc_sign area_of_interest it =
     (case asset_href it ''image'' of
        Inl e \<Rightarrow> Inl e
      | Inr h0 \<Rightarrow>
         (case rasterio_open lib (pc_sign h0) of
            Inl e \<Rightarrow> Inl e
          | Inr ds \<Rightarrow>
             (case read_window lib area_of_interest ds of
                Inl e \<Rightarrow> Inl e
              | Inr band_data \<Rightarrow>
                 (case fromarray lib (transpose_120 band_data) of
                    Inl e \<Rightarrow> Inl e
                  | Inr img \<Rightarrow>
                     (let w = fst (size_wh img); h = snd (size_wh img)
                      in case target_size w h of
                           Inl e \<Rightarrow> Inl e
                         | Inr ts \<Rightarrow> resize lib img ts)))))"

section \<open>Forest inventory: carbon per county (\<open>df\<close>, \<open>result\<close>)\<close>

text \<open>
  The two parquet tables are dask dataframes: lists of partitions, each a list of rows with
  the columns the notebook reads. The key columns are \<open>int64\<close>. The measurements are
  \<open>float64\<close>; their type is the parameter \<open>'f\<close>, and what pandas and dask do with
  them is the record \<open>frame_lib\<close>: the product of two columns, the quotient of a column
  by an integer, and the sum of one column over one group, which dask computes by
  partition and combines, and which is handed the values of the group partition by
  partition. Rounding, NaN and the order of the additions are the library's.

  \<open>read_tree\<close> is \<open>dd.read_parquet(..., filters=[("CONDID", "==", 1)])\<close>, \<open>compute\<close>
  makes one pandas frame of the partitions, \<open>merge_on_PLT_CN\<close> is the inner join
  \<open>tree.merge(plot.assign(PLT_CN=plot.CN).compute(), on="PLT_CN")\<close> of one partition
  (the rows in the order of the left keys, as pandas documents it),
  \<open>df\<close> adds the columns \<open>bio\<close> and \<open>carbon\<close>, \<open>groupby_sum\<close> is
  \<open>groupby(["STATECD", "COUNTYCD"])[["bio", "carbon"]].sum().compute()\<close>, and
  \<open>result\<close> adds the padded strings and drops the two numeric codes. The order in which
  the groups come back is the library's too: it is given by a ranking \<open>group_rank\<close> of
  the keys (the identity for the order of the keys).
\<close>

record plot_row =
  CN :: int
  STATECD :: int
  COUNTYCD :: int

record 'f tree_row =
  PLT_CN :: int
  CONDID :: int
  TREE :: int
  DRYBIO_AG :: 'f
  CARBON_AG :: 'f
  TPA_UNADJ :: 'f

record 'f df_row =
  tree_cols :: "'f tree_row"
  plot_cols :: plot_row
  bio :: 'f
  carbon :: 'f

record 'f result_row =
  bio :: 'f
  carbon :: 'f
  STATE :: string
  COUNTY :: string

record 'f frame_lib =
  col_mul :: "'f \<Rightarrow> 'f \<Rightarrow> 'f"
  col_div :: "'f \<Rightarrow> int \<Rightarrow> 'f"
  col_sum :: "'f list list \<Rightarrow> 'f"

definition read_tree :: "'f tree_row list list \<Rightarrow> 'f tree_row list list" where
  "read_tree stored = map (filter (\<lambda>t. CONDID t = 1)) stored"

definition compute :: "'a list list \<Rightarrow> 'a list" where
  "compute partitions = concat partitions"

definition merge_on_PLT_CN :: "'f tree_row list \<Rightarrow> plot_row list \<Rightarrow> ('f tree_row \<times> plot_row) list" where
  "merge_on_PLT_CN tree plot =
     concat (map (\<lambda>t. map (\<lambda>p. (t, p)) (filter (\<lambda>p. CN p = PLT_CN t) plot)) tree)"

definition df :: "'f frame_lib \<Rightarrow> 'f tree_row list list \<Rightarrow> plot_row list list \<Rightarrow> 'f df_row list list" where
  "df lib tree plot =
     map (\<lambda>part.
            map (\<lambda>(t, p). \<lparr>tree_cols = t, plot_cols = p,
                            bio = col_div lib (col_mul lib (DRYBIO_AG t) (TPA_UNADJ t)) 2000,
                            carbon = col_div lib (col_mul lib (CARBON_AG t) (TPA_UNADJ t)) 2000\<rparr>)
              (merge_on_PLT_CN part (compute plot)))
       tree"

definition county_key :: "'f df_row \<Rightarrow> int \<times> int" where
  "county_key r = (STATECD (plot_cols r), COUNTYCD (plot_cols r))"

definition groupby_sum ::
  "'f frame_lib \<Rightarrow> (int \<times> int \<Rightarrow> 'r::linorder) \<Rightarrow> 'f df_row list list \<Rightarrow> ((int \<times> int) \<times> 'f \<times> 'f) list" where
  "groupby_sum lib group_rank partitions =
     map (\<lambda>k. (k, col_sum lib (map (\<lambda>part. map df_row.bio (filter (\<lambda>r. county_key r = k) part)) partitions),
                  col_sum lib (map (\<lambda>part. map df_row.carbon (filter (\<lambda>r. county_key r = k) part)) partitions)))
       (sort_key group_rank (remdups (map county_key (compute partitions))))"

text \<open>\<open>astype("string")\<close> of an \<open>int64\<close> is its decimal rendering; \<open>str.pad\<close> pads on the left.\<close>

fun str_nat :: "nat \<Rightarrow> string" where
  "str_nat n =
     (if n < 10 then [char_of (48 + n)] else str_nat (n div 10) @ [char_of (48 + n mod 10)])"

declare str_nat.simps [simp del]

definition str_int :: "int \<Rightarrow> string" where
  "str_int i = (if i < 0 then CHR ''-'' # str_nat (nat (- i)) else str_nat (nat i))"

definition pad :: "nat \<Rightarrow> char \<Rightarrow> string \<Rightarrow> string" where
  "pad width fillchar s = replicate (width - length s) fillchar @ s"

text \<open>
  \<open>reset_index().assign(STATE=..., COUNTY=...).drop(columns=["STATECD", "COUNTYCD"])\<close>:
  the two codes of a group are read to make the strings and are not columns of the
  result.
\<close>

definition result ::
  "'f frame_lib \<Rightarrow> (int \<times> int \<Rightarrow> 'r::linorder) \<Rightarrow> 'f tree_row list list \<Rightarrow> plot_row list list \<Rightarrow>
   'f result_row list" where
  "result lib group_rank tree plot =
     map (\<lambda>((statecd, countycd), b, c).
            \<lparr>bio = b, carbon = c,
             STATE = pad 2 (CHR ''0'') (str_int statecd),
             COUNTY = pad 3 (CHR ''0'') (str_int countycd)\<rparr>)
       (groupby_sum lib group_rank (df lib tree plot))"

text \<open>
  What a decimal string is, in the words of the claim and apart from \<open>str_int\<close>: the
  digits of a natural number are not empty, are all among \<open>0\<close> to \<open>9\<close>, begin with
  \<open>0\<close> only when there is one digit, and have the number as their value in base ten; a
  negative integer is a minus sign before the digits of its absolute value.
\<close>

definition is_digit :: "char \<Rightarrow> bool" where
  "is_digit c = (48 \<le> (of_char c :: nat) \<and> (of_char c :: nat) \<le> 57)"

definition decimal_value :: "string \<Rightarrow> nat" where
  "decimal_value s = foldl (\<lambda>a c. 10 * a + (of_char c - 48)) 0 s"

definition is_numeral_of :: "nat \<Rightarrow> string \<Rightarrow> bool" where
  "is_numeral_of n d =
     (d \<noteq> [] \<and> list_all is_digit d \<and> (length d = 1 \<or> hd d \<noteq> CHR ''0'') \<and> decimal_value d = n)"

definition is_decimal_of :: "int \<Rightarrow> string \<Rightarrow> bool" where
  "is_decimal_of i d =
     (if i < 0 then d \<noteq> [] \<and> hd d = CHR ''-'' \<and> is_numeral_of (nat (- i)) (tl d)
      else is_numeral_of (nat i) d)"

section \<open>The Radiant MLHub session (\<open>MLHubSession\<close>)\<close>

text \<open>
  \<open>MLHubSession.request\<close> calls \<open>urllib.parse.urljoin\<close> and
  \<open>requests.Session.request\<close>, which are libraries. \<open>request\<close> below takes
  \<open>urljoin\<close> as a parameter, a function that returns the joined URL or raises, and
  the global \<open>MLHUB_ROOT_URL\<close> as the parameter \<open>root_url\<close>; what
  \<open>Session.request\<close> does with the method and the parameters is written out as
  \<open>session_request\<close>.

  For the worked inputs \<open>urljoin\<close> is written out as \<open>cpython_urljoin\<close>, after
  \<open>urlsplit\<close>, \<open>urlparse\<close>, \<open>urlunparse\<close>, \<open>urlunsplit\<close> and \<open>urljoin\<close>
  of CPython 3.11: leading blanks and control characters are stripped and tabs and line
  breaks removed before a URL is split, the scheme, network location, path, path
  parameters (\<open>;\<close> in the last segment), query and fragment are split off, a reference
  with its own scheme or network location stands for itself, a path that begins with
  \<open>/\<close> replaces the path of the base, any other path is appended to the directory of
  the base, and \<open>.\<close> and \<open>..\<close> segments are resolved. A network location with
  one bracket and not the other raises \<open>ValueError\<close>. Strings are strings of bytes;
  the validation of an address between brackets (module \<open>ipaddress\<close>) is not written
  out.
\<close>

definition is_alpha :: "char \<Rightarrow> bool" where
  "is_alpha c = (let n = (of_char c :: nat) in (65 \<le> n \<and> n \<le> 90) \<or> (97 \<le> n \<and> n \<le> 122))"

definition is_scheme_char :: "char \<Rightarrow> bool" where
  "is_scheme_char c =
     (let n = (of_char c :: nat)
      in is_alpha c \<or> (48 \<le> n \<and> n \<le> 57) \<or> c = CHR ''+'' \<or> c = CHR ''-'' \<or> c = CHR ''.'')"

definition ascii_lower :: "char \<Rightarrow> char" where
  "ascii_lower c =
     (let n = (of_char c :: nat) in if 65 \<le> n \<and> n \<le> 90 then char_of (n + 32) else c)"

definition ascii_upper :: "char \<Rightarrow> char" where
  "ascii_upper c =
     (let n = (of_char c :: nat) in if 97 \<le> n \<and> n \<le> 122 then char_of (n - 32) else c)"

record url_parts =
  scheme :: string
  netloc :: string
  path :: string
  url_params :: string
  query :: string
  fragment :: string

definition lstrip_c0_space :: "string \<Rightarrow> string" where
  \<comment> \<open>\<open>url.lstrip(_WHATWG_C0_CONTROL_OR_SPACE)\<close>\<close>
  "lstrip_c0_space u = dropWhile (\<lambda>c. (of_char c :: nat) \<le> 32) u"

definition remove_unsafe :: "string \<Rightarrow> string" where
  \<comment> \<open>the tab, the carriage return and the line feed are removed\<close>
  "remove_unsafe u = filter (\<lambda>c. (of_char c :: nat) \<notin> {9, 13, 10}) u"

definition split_scheme :: "string \<Rightarrow> string \<times> string" where
  "split_scheme u =
     (let s = takeWhile (\<lambda>c. c \<noteq> CHR '':'') u
      in if length s < length u \<and> s \<noteq> [] \<and> is_alpha (hd s) \<and> list_all is_scheme_char s
         then (map ascii_lower s, drop (length s + 1) u)
         else ([], u))"

definition split_first :: "char \<Rightarrow> string \<Rightarrow> string \<times> string" where
  "split_first d u = (takeWhile (\<lambda>c. c \<noteq> d) u, drop 1 (dropWhile (\<lambda>c. c \<noteq> d) u))"

definition urlsplit :: "string \<Rightarrow> string \<Rightarrow> py_error + url_parts" where
  "urlsplit u default_scheme =
     (let u = remove_unsafe (lstrip_c0_space u);
          (sch, rest) = split_scheme u;
          (nl, rest1) =
            (if take 2 rest = ''//''
             then (takeWhile (\<lambda>c. c \<notin> set ''/?#'') (drop 2 rest),
                   dropWhile (\<lambda>c. c \<notin> set ''/?#'') (drop 2 rest))
             else ([], rest));
          (rest2, frag) = split_first (CHR ''#'') rest1;
          (p, q) = split_first (CHR ''?'') rest2
      in if (CHR ''['' \<in> set nl) \<noteq> (CHR '']'' \<in> set nl) then Inl ValueError
         else Inr \<lparr>scheme = (if sch = [] then default_scheme else sch), netloc = nl, path = p,
                   url_params = [], query = q, fragment = frag\<rparr>)"

definition uses_relative :: "string list" where
  "uses_relative = [[], ''ftp'', ''http'', ''gopher'', ''nntp'', ''imap'', ''wais'', ''file'',
     ''https'', ''shttp'', ''mms'', ''prospero'', ''rtsp'', ''rtsps'', ''rtspu'', ''sftp'',
     ''svn'', ''svn+ssh'', ''ws'', ''wss'']"

definition uses_netloc :: "string list" where
  "uses_netloc = [[], ''ftp'', ''http'', ''gopher'', ''nntp'', ''telnet'', ''imap'', ''wais'',
     ''file'', ''mms'', ''https'', ''shttp'', ''snews'', ''prospero'', ''rtsp'', ''rtsps'',
     ''rtspu'', ''rsync'', ''svn'', ''svn+ssh'', ''sftp'', ''nfs'', ''git'', ''git+ssh'',
     ''ws'', ''wss'', ''itms-services'']"

definition uses_params :: "string list" where
  "uses_params = [[], ''ftp'', ''hdl'', ''prospero'', ''http'', ''imap'', ''https'', ''shttp'',
     ''rtsp'', ''rtsps'', ''rtspu'', ''sip'', ''sips'', ''mms'', ''sftp'', ''tel'']"

definition splitparams :: "string \<Rightarrow> string \<times> string" where
  \<comment> \<open>\<open>_splitparams\<close>: the first \<open>;\<close> of the last segment splits path and parameters\<close>
  "splitparams u =
     (let seg = rev (takeWhile (\<lambda>c. c \<noteq> CHR ''/'') (rev u));
          dir = take (length u - length seg) u
      in if CHR '';'' \<in> set seg
         then (dir @ takeWhile (\<lambda>c. c \<noteq> CHR '';'') seg,
               drop 1 (dropWhile (\<lambda>c. c \<noteq> CHR '';'') seg))
         else (u, []))"

definition urlparse :: "string \<Rightarrow> string \<Rightarrow> py_error + url_parts" where
  "urlparse u default_scheme =
     (case urlsplit u default_scheme of
        Inl e \<Rightarrow> Inl e
      | Inr r \<Rightarrow>
          if scheme r \<in> set uses_params \<and> CHR '';'' \<in> set (path r)
          then (let (p, ps) = splitparams (path r) in Inr (r\<lparr>path := p, url_params := ps\<rparr>))
          else Inr r)"

definition urlunsplit :: "url_parts \<Rightarrow> string" where
  "urlunsplit p =
     (let u = path p;
          u1 = (if netloc p \<noteq> [] \<or> (scheme p \<noteq> [] \<and> scheme p \<in> set uses_netloc) \<or> take 2 u = ''//''
                then ''//'' @ netloc p @ (if u \<noteq> [] \<and> take 1 u \<noteq> ''/'' then ''/'' @ u else u)
                else u);
          u2 = (if scheme p \<noteq> [] then scheme p @ '':'' @ u1 else u1);
          u3 = (if query p \<noteq> [] then u2 @ ''?'' @ query p else u2)
      in if fragment p \<noteq> [] then u3 @ ''#'' @ fragment p else u3)"

definition urlunparse :: "url_parts \<Rightarrow> string" where
  "urlunparse p =
     urlunsplit (if url_params p \<noteq> [] then p\<lparr>path := path p @ '';'' @ url_params p\<rparr> else p)"

fun split_slash :: "string \<Rightarrow> string list" where
  "split_slash [] = [[]]"
| "split_slash (c # cs) =
     (if c = CHR ''/'' then [] # split_slash cs
      else (case split_slash cs of [] \<Rightarrow> [[c]] | s # ss \<Rightarrow> (c # s) # ss))"

fun join_slash :: "string list \<Rightarrow> string" where
  "join_slash [] = []"
| "join_slash [s] = s"
| "join_slash (s # ss) = s @ ''/'' @ join_slash ss"

fun resolve_dots :: "string list \<Rightarrow> string list \<Rightarrow> string list" where
  "resolve_dots resolved_path [] = resolved_path"
| "resolve_dots resolved_path (seg # segments) =
     (if seg = ''..'' then resolve_dots (butlast resolved_path) segments
      else if seg = ''.'' then resolve_dots resolved_path segments
      else resolve_dots (resolved_path @ [seg]) segments)"

definition drop_empty_interior :: "string list \<Rightarrow> string list" where
  "drop_empty_interior segments =
     (if length segments < 2 then segments
      else hd segments # filter (\<lambda>s. s \<noteq> []) (butlast (tl segments)) @ [last segments])"

definition join_parsed :: "string \<Rightarrow> url_parts \<Rightarrow> url_parts \<Rightarrow> string" where
  \<comment> \<open>\<open>urljoin\<close> after its two calls of \<open>urlparse\<close>: \<open>b\<close> is the base, \<open>r\<close> the reference \<open>u\<close>\<close>
  "join_parsed u b r =
     (if scheme r \<noteq> scheme b \<or> scheme r \<notin> set uses_relative then u
      else if scheme r \<in> set uses_netloc \<and> netloc r \<noteq> [] then urlunparse r
      else
        let nl = (if scheme r \<in> set uses_netloc then netloc b else netloc r)
        in if path r = [] \<and> url_params r = [] then
             urlunparse (r\<lparr>netloc := nl, path := path b, url_params := url_params b,
                            query := (if query r = [] then query b else query r)\<rparr>)
           else
             let base_parts = split_slash (path b);
                 base_parts = (if last base_parts \<noteq> [] then butlast base_parts else base_parts);
                 segments =
                   (if take 1 (path r) = ''/'' then split_slash (path r)
                    else drop_empty_interior (base_parts @ split_slash (path r)));
                 resolved_path = resolve_dots [] segments;
                 resolved_path =
                   (if last segments = ''.'' \<or> last segments = ''..''
                    then resolved_path @ [[]] else resolved_path);
                 joined = join_slash resolved_path
             in urlunparse (r\<lparr>netloc := nl, path := (if joined = [] then ''/'' else joined)\<rparr>))"

definition cpython_urljoin :: "string \<Rightarrow> string \<Rightarrow> py_error + string" where
  "cpython_urljoin base u =
     (if base = [] then Inr u else if u = [] then Inr base
      else
        case urlparse base [] of
          Inl e \<Rightarrow> Inl e
        | Inr b \<Rightarrow>
            (case urlparse u (scheme b) of
               Inl e \<Rightarrow> Inl e
             | Inr r \<Rightarrow> Inr (join_parsed u b r)))"

text \<open>\<open>s.rstrip(c)\<close> removes every trailing \<open>c\<close>.\<close>

definition rstrip :: "char \<Rightarrow> string \<Rightarrow> string" where
  "rstrip c s = rev (dropWhile (\<lambda>x. x = c) (rev s))"

text \<open>
  A \<open>requests.Session\<close> keeps default query parameters in \<open>self.params\<close>; a value
  \<open>None\<close> stands for a parameter that is not sent. \<open>Session.request\<close> puts the
  method in upper case, merges the session's parameters with the parameters of the call
  (\<open>merge_setting\<close> on two dictionaries: the call's entries win, entries with value
  \<open>None\<close> are dropped) and sends the request to the given URL. What is sent is the
  record \<open>prepared_request\<close>, before the parameters are encoded into the URL.
\<close>

record prepared_request =
  req_method :: string
  req_url :: string
  req_params :: "(string \<times> string) list"

record mlhub_session =
  params :: "(string \<times> string option) list"

definition MLHUB_ROOT_URL :: string where
  "MLHUB_ROOT_URL = ''https://api.radiant.earth/mlhub/v1''"

definition MLHubSession :: "string option \<Rightarrow> mlhub_session" where
  \<comment> \<open>\<open>__init__\<close>: \<open>self.params.update({"key": api_key})\<close> on the empty defaults\<close>
  "MLHubSession api_key = \<lparr>params = AList.update ''key'' api_key []\<rparr>"

definition merge_setting ::
  "(string \<times> string option) list \<Rightarrow> (string \<times> string option) list \<Rightarrow> (string \<times> string) list" where
  "merge_setting request_setting session_setting =
     (let merged_setting = fold (\<lambda>(k, v). AList.update k v) request_setting session_setting
      in [(k, the v). (k, v) \<leftarrow> merged_setting, v \<noteq> None])"

definition session_request ::
  "mlhub_session \<Rightarrow> string \<Rightarrow> string \<Rightarrow> (string \<times> string option) list \<Rightarrow> prepared_request" where
  \<comment> \<open>\<open>requests.Session.request(method, url, params=...)\<close>\<close>
  "session_request self method u ps =
     \<lparr>req_method = map ascii_upper method, req_url = u,
      req_params = merge_setting ps (params self)\<rparr>"

definition request ::
  "(string \<Rightarrow> string \<Rightarrow> py_error + string) \<Rightarrow> string \<Rightarrow> mlhub_session \<Rightarrow> string \<Rightarrow> string \<Rightarrow>
   (string \<times> string option) list \<Rightarrow> py_error + prepared_request" where
  "request urljoin root_url self method u ps =
     (let url_prefix = rstrip (CHR ''/'') root_url @ ''/''
      in case urljoin url_prefix u of
           Inl e \<Rightarrow> Inl e
         | Inr u \<Rightarrow> Inr (session_request self method u ps))"

definition get ::
  "(string \<Rightarrow> string \<Rightarrow> py_error + string) \<Rightarrow> string \<Rightarrow> mlhub_session \<Rightarrow> string \<Rightarrow>
   py_error + prepared_request" where
  \<comment> \<open>\<open>session.get(url)\<close>\<close>
  "get urljoin root_url self u = request urljoin root_url self ''GET'' u []"

section \<open>Signing asset hrefs (\<open>pc.sign\<close>, \<open>sign_inplace\<close>)\<close>

text \<open>
  The notebooks call \<open>pc.sign(item.assets['image'].href)\<close> and open the catalog with
  \<open>modifier=planetary_computer.sign_inplace\<close>. The signer itself is the
  \<open>planetary_computer\<close> package and is not part of the notebooks.
\<close>

text \<open>
  Modelled from the spec: the signer of section 4.2 (\<open>sign(asset_ref) -> AssetRef\<close>),
  whose code is not in the sources. "Signing appends a time-limited access token (or
  equivalent) to the href when the backing store requires authorization; it is idempotent
  to call on an unsigned ref and a no-op (or re-signs) on an already-signed one." Which
  stores require authorization, the token, and whether an already-signed href is left
  alone or signed afresh are left open by the spec: they are the fields of \<open>signer\<close>.
  The token is appended as the query of the href, after \<open>?\<close>; an href is signed when
  it has a query, and its unsigned base path is what precedes the \<open>?\<close>.
\<close>

record signer =
  requires_authorization :: "string \<Rightarrow> bool"
  access_token :: "string \<Rightarrow> string"
  re_signs :: bool

text \<open>Modelled from the spec: the unsigned base path of an href (glossary, "Signing").\<close>

definition base_path :: "string \<Rightarrow> string" where
  "base_path h = takeWhile (\<lambda>c. c \<noteq> CHR ''?'') h"

text \<open>Modelled from the spec: an href that already carries a token.\<close>

definition is_signed :: "string \<Rightarrow> bool" where
  "is_signed h = (CHR ''?'' \<in> set h)"

text \<open>Modelled from the spec: signing an href, as section 4.2 words it.\<close>

definition sign_href :: "signer \<Rightarrow> string \<Rightarrow> string" where
  "sign_href s h =
     (if \<not> requires_authorization s (base_path h) then h
      else if \<not> is_signed h then h @ ''?'' @ access_token s h
      else if re_signs s then base_path h @ ''?'' @ access_token s (base_path h)
      else h)"

text \<open>Modelled from the spec: \<open>sign(asset_ref)\<close> rewrites the href only.\<close>

definition sign :: "signer \<Rightarrow> asset_ref \<Rightarrow> asset_ref" where
  "sign s a = a\<lparr>href := sign_href s (href a)\<rparr>"

section \<open>Registering a mosaic and showing it on a map\<close>

text \<open>
  The cells post \<open>{"collection": collection, "filter": filter_}\<close> to
  \<open>/mosaic/register\<close>, take \<open>registered["links"][1]["href"]\<close>, read the default
  render options of the item's collection from \<open>/mosaic/info\<close>, get
  \<open>f"{tilejson_url}?collection={item.collection_id}&{render_options}"\<close> and hand
  \<open>["tiles"][0]\<close> to \<open>ipyleaflet.TileLayer(url=tiles)\<close>. The three HTTP calls go to a
  remote service: for the cells it is a record of functions.
\<close>

record 'f register_body =
  collection :: string
  filter_json :: 'f

record link =
  link_rel :: string
  link_type :: string
  link_href :: string

record registration =
  searchid :: string
  links :: "link list"

record render_option =
  options :: string

record mosaic_info =
  renderOptions :: "render_option list"

record tilejson =
  tiles :: "string list"
  minzoom :: nat
  maxzoom :: nat

record 'f data_api =
  post_register :: "'f register_body \<Rightarrow> py_error + registration"
  get_mosaic_info :: "string \<Rightarrow> py_error + mosaic_info"
  get_json :: "string \<Rightarrow> py_error + tilejson"

definition item_at :: "'a list \<Rightarrow> nat \<Rightarrow> py_error + 'a" where
  \<comment> \<open>\<open>xs[i]\<close> for an index \<open>i \<ge> 0\<close>\<close>
  "item_at xs i = (if i < length xs then Inr (xs ! i) else Inl IndexError)"

definition mosaic_tiles :: "'f data_api \<Rightarrow> string \<Rightarrow> 'f \<Rightarrow> string \<Rightarrow> py_error + string" where
  "mosaic_tiles api coll flt item_collection_id =
     (case post_register api \<lparr>collection = coll, filter_json = flt\<rparr> of
        Inl e \<Rightarrow> Inl e
      | Inr registered \<Rightarrow>
         (case item_at (links registered) 1 of
            Inl e \<Rightarrow> Inl e
          | Inr l \<Rightarrow>
             (let tilejson_url = link_href l in
              case get_mosaic_info api item_collection_id of
                Inl e \<Rightarrow> Inl e
              | Inr info \<Rightarrow>
                 (case item_at (renderOptions info) 0 of
                    Inl e \<Rightarrow> Inl e
                  | Inr ro \<Rightarrow>
                     (let render_options = options ro in
                      case get_json api
                             (tilejson_url @ ''?collection='' @ item_collection_id @ ''&''
                                @ render_options) of
                        Inl e \<Rightarrow> Inl e
                      | Inr tj \<Rightarrow> item_at (tiles tj) 0)))))"

text \<open>\<open>ipyleaflet.Map(center=..., zoom=...)\<close> with its base layer, and \<open>m.add_layer\<close>.\<close>

definition new_map :: "coord \<Rightarrow> nat \<Rightarrow> widgets" where
  "new_map c z =
     \<lparr>m_map = \<lparr>center = c, zoom = z, layers = [0], layout_width = []\<rparr>,
      objs = [0 \<mapsto> \<lparr>kind = TileLayer,
                      url = ''https://tile.openstreetmap.org/{z}/{x}/{y}.png'', data = None\<rparr>],
      stdout = []\<rparr>"

definition add_layer :: "layer_obj \<Rightarrow> widgets \<Rightarrow> widgets" where
  "add_layer l st =
     (let a = Suc (foldr max (layers (m_map st)) 0)
      in st\<lparr>m_map := (m_map st)\<lparr>layers := layers (m_map st) @ [a]\<rparr>, objs := (objs st)(a \<mapsto> l)\<rparr>)"

definition mosaic_map ::
  "'f data_api \<Rightarrow> string \<Rightarrow> 'f \<Rightarrow> string \<Rightarrow> geometry \<Rightarrow> coord \<Rightarrow> py_error + widgets" where
  "mosaic_map api coll flt item_collection_id aoi c =
     (case mosaic_tiles api coll flt item_collection_id of
        Inl e \<Rightarrow> Inl e
      | Inr t \<Rightarrow>
         Inr (add_layer \<lparr>kind = GeoJSON, url = [], data = Some aoi\<rparr>
                (add_layer \<lparr>kind = TileLayer, url = t, data = None\<rparr>
                   (new_map (snd c, fst c) 9))))"

text \<open>Modelled from the spec: how the service reads the path of a request.\<close>

definition strip_prefix :: "string \<Rightarrow> string \<Rightarrow> string option" where
  "strip_prefix p s = (if prefix p s then Some (drop (length p) s) else None)"

text \<open>
  Modelled from the spec: the service writes a space of the query as \<open>+\<close> in the
  template it returns, as in the recorded response.
\<close>

definition quote_plus_space :: "string \<Rightarrow> string" where
  "quote_plus_space q = map (\<lambda>c. if c = CHR '' '' then CHR ''+'' else c) q"

text \<open>Modelled from the spec: the root of the data API, where the endpoints live.\<close>

definition data_api_root :: string where
  "data_api_root = ''https://planetarycomputer.microsoft.com/api/data/v1''"

text \<open>
  Modelled from the spec: the remote mosaic endpoints (sections 4.4 and 6), which are a
  service and not code of the notebooks. \<open>POST {collection, filter}\<close> returns
  \<open>{searchid, links[]}\<close> for a registration the service accepts; the identifier is
  the service's choice (\<open>assign_id\<close>, \<open>None\<close> when it refuses). \<open>GET\<close> on the
  tilejson link returns \<open>{tiles: [urlTemplate], ...}\<close>, "substituting the registered
  identifier and those parameters into a templated tile-URL pattern". The shape of the
  links and of the template, and the \<open>+\<close> for a space in the query, are those of the
  responses recorded in the notebook.
\<close>

definition pc_data_api ::
  "('f register_body \<Rightarrow> string option) \<Rightarrow> (string \<Rightarrow> string) \<Rightarrow> 'f data_api" where
  "pc_data_api assign_id default_options =
     \<lparr>post_register = (\<lambda>body.
        case assign_id body of
          None \<Rightarrow> Inl HTTPError
        | Some sid \<Rightarrow>
           Inr \<lparr>searchid = sid,
                links = [\<lparr>link_rel = ''metadata'', link_type = ''application/json'',
                          link_href = data_api_root @ ''/mosaic/'' @ sid @ ''/info''\<rparr>,
                         \<lparr>link_rel = ''tilejson'', link_type = ''application/json'',
                          link_href = data_api_root @ ''/mosaic/'' @ sid @ ''/tilejson.json''\<rparr>]\<rparr>),
      get_mosaic_info = (\<lambda>c. Inr \<lparr>renderOptions = [\<lparr>options = default_options c\<rparr>]\<rparr>),
      get_json = (\<lambda>u.
        case strip_prefix (data_api_root @ ''/mosaic/'') u of
          None \<Rightarrow> Inl HTTPError
        | Some rest \<Rightarrow>
           (let sid = takeWhile (\<lambda>c. c \<noteq> CHR ''/'') rest;
                after = dropWhile (\<lambda>c. c \<noteq> CHR ''/'') rest
            in case strip_prefix ''/tilejson.json?'' after of
                 None \<Rightarrow> Inl HTTPError
               | Some q \<Rightarrow>
                  Inr \<lparr>tiles = [data_api_root @ ''/mosaic/tiles/'' @ sid
                                  @ ''/WebMercatorQuad/{z}/{x}/{y}@1x?'' @ quote_plus_space q],
                       minzoom = 0, maxzoom = 24\<rparr>))\<rparr>"

section \<open>Searching the catalog (\<open>catalog.search\<close>, \<open>item_collection\<close>)\<close>

text \<open>
  The notebook calls
  \<open>catalog.search(collections=["sentinel-2-l2a"], datetime="2023-04-01",
  query={"platform": {"eq": "Sentinel-2B"}}, sortby="datetime", max_items=200)\<close> and
  \<open>search.item_collection()\<close>. Both are \<open>pystac_client\<close>'s, and the items come from
  the remote STAC API; neither is code of the notebooks.
\<close>

text \<open>
  Modelled from the spec: the search request of section 3 (collection identifiers, a
  datetime instant, attribute-equality filters, a sort key and a result cap), with the
  notebook's argument names.
\<close>

record search_request =
  collections :: "string list"
  search_datetime :: "(nat \<times> nat \<times> nat) option"
  query :: "(string \<times> string) list"
  sortby :: "string option"
  max_items :: "nat option"

text \<open>
  Modelled from the spec: the search endpoint of section 6, as the items it holds and the
  size of the pages it returns ("returns a paginated list of item records").
\<close>

record stac_api =
  catalog :: "item list"
  page_size :: nat

text \<open>Modelled from the spec: an item whose timestamp lies on the requested day.\<close>

definition on_date :: "nat \<times> nat \<times> nat \<Rightarrow> item \<Rightarrow> bool" where
  "on_date d it =
     (case item_datetime it of
        None \<Rightarrow> False
      | Some t \<Rightarrow> (year t, month t, day t) = d)"

text \<open>
  Modelled from the spec: the items a request selects, by collection, by datetime and by
  attribute equality.
\<close>

definition matches :: "search_request \<Rightarrow> item \<Rightarrow> bool" where
  "matches req it =
     (collection_id it \<in> set (collections req) \<and>
      (case search_datetime req of None \<Rightarrow> True | Some d \<Rightarrow> on_date d it) \<and>
      list_all (\<lambda>(k, v). map_of (properties it) k = Some v) (query req))"

text \<open>Modelled from the spec: the sort key of \<open>sortby="datetime"\<close>.\<close>

definition timestamp_key :: "item \<Rightarrow> nat \<times> nat \<times> nat \<times> nat" where
  "timestamp_key it =
     (case item_datetime it of
        None \<Rightarrow> (0, 0, 0, 0)
      | Some t \<Rightarrow> (year t, month t, day t, seconds t))"

text \<open>Modelled from the spec: the result list cut into pages.\<close>

fun paginate :: "nat \<Rightarrow> 'a list \<Rightarrow> 'a list list" where
  "paginate n xs = (if n = 0 \<or> xs = [] then [] else take n xs # paginate n (drop n xs))"

declare paginate.simps [simp del]

text \<open>Modelled from the spec: the pages the endpoint returns for a request.\<close>

definition search_pages :: "stac_api \<Rightarrow> search_request \<Rightarrow> item list list" where
  "search_pages api req =
     (let found = filter (matches req) (catalog api);
          ordered = (if sortby req = Some ''datetime'' then sort_key timestamp_key found else found)
      in paginate (page_size api) ordered)"

text \<open>
  Modelled from the spec: the catalog client of section 4.1, which "issues follow-up
  requests as the consumer advances, subject to any limit cap": pages are read in order
  and reading stops once the cap is reached.
\<close>

fun take_items :: "nat option \<Rightarrow> 'a list list \<Rightarrow> 'a list" where
  "take_items cap [] = []"
| "take_items None (p # ps) = p @ take_items None ps"
| "take_items (Some n) (p # ps) =
     (if n \<le> length p then take n p else p @ take_items (Some (n - length p)) ps)"

text \<open>Modelled from the spec: \<open>search(...)\<close> materialised as a sequence of item records.\<close>

definition item_collection :: "stac_api \<Rightarrow> search_request \<Rightarrow> item list" where
  "item_collection api req = take_items (max_items req) (search_pages api req)"

text \<open>The request of the notebook.\<close>

definition sentinel_search :: search_request where
  "sentinel_search =
     \<lparr>collections = [''sentinel-2-l2a''], search_datetime = Some (2023, 4, 1),
      query = [(''platform'', ''Sentinel-2B'')], sortby = Some ''datetime'',
      max_items = Some 200\<rparr>"

section \<open>Worked inputs\<close>

text \<open>Concrete inputs on which the theorems below are exercised.\<close>

definition example_item :: item where
  "example_item =
     \<lparr>item_id = ''S2B_T11XML'', item_geometry = Polygon [[(0, 0), (4, 0), (4, 2), (0, 0)]],
      item_datetime = Some \<lparr>year = 2023, month = 4, day = 1, seconds = 719\<rparr>,
      collection_id = ''sentinel-2-l2a'',
      properties = [(''platform'', ''Sentinel-2B'')], assets = []\<rparr>"

definition example_centroid :: "geometry \<Rightarrow> coord option" where
  "example_centroid g = (case g of Point p \<Rightarrow> Some p | Polygon rs \<Rightarrow> Some (-121, 81))"

definition selected_widgets :: widgets where
  "selected_widgets =
     \<lparr>m_map = \<lparr>center = (81, -121), zoom = 3, layers = [0, 1], layout_width = ''600px''\<rparr>,
      objs = [0 \<mapsto> \<lparr>kind = TileLayer,
                      url = ''https://tile.openstreetmap.org/{z}/{x}/{y}.png'', data = None\<rparr>,
              1 \<mapsto> \<lparr>kind = GeoJSON, url = [], data = Some (item_geometry example_item)\<rparr>],
      stdout = [''S2B_T11XML 2023-04-01'']\<rparr>"

definition example_area :: "geometry \<Rightarrow> real" where
  "example_area g = (case g of Point p \<Rightarrow> 0 | Polygon rs \<Rightarrow> real (length rs))"

definition example_intersection :: "geometry \<Rightarrow> geometry \<Rightarrow> geometry" where
  "example_intersection a b = a"

definition scene :: "string \<Rightarrow> nat \<Rightarrow> item" where
  "scene name n =
     \<lparr>item_id = name, item_geometry = Polygon (replicate n []), item_datetime = None,
      collection_id = ''naip'', properties = [], assets = []\<rparr>"

text \<open>
  A stand-in for the raster libraries: every read returns a zero-filled array of
  \<open>hh\<close> rows and \<open>ww\<close> columns per requested band, the reprojection shifts and scales
  the bounds, \<open>Image.fromarray\<close> accepts every array, and \<open>resize\<close> gives the image
  the requested size.
\<close>

definition example_lib :: "nat \<Rightarrow> nat \<Rightarrow> (unit, string, unit, bounds) raster_lib" where
  "example_lib hh ww =
     \<lparr>rasterio_open = (\<lambda>href. Inr ()),
      ds_crs = (\<lambda>ds. ''epsg:26912''),
      ds_transform = (\<lambda>ds. ()),
      features_bounds = (\<lambda>g. Inr (- 112, 40, - 111, 41)),
      transform_bounds =
        (\<lambda>src dst b. case b of (l, bt, r, t) \<Rightarrow> Inr (l + 500, bt * 100, r + 500, t * 100)),
      from_bounds = (\<lambda>b tf. Inr b),
      ds_read = (\<lambda>ds idx win. Inr \<lparr>shape = (length idx, hh, ww), elems = (\<lambda>k i j. 0)\<rparr>),
      pil_accepts = (\<lambda>a. True),
      resize = (\<lambda>img ts. Inr (img\<lparr>size_wh := (fst ts, nat (snd ts))\<rparr>))\<rparr>"

definition naip_item :: item where
  "naip_item =
     \<lparr>item_id = ''ut_m_4011161_se_12_1_20110720'', item_geometry = Polygon [],
      item_datetime = Some \<lparr>year = 2011, month = 7, day = 20, seconds = 0\<rparr>,
      collection_id = ''naip'', properties = [],
      assets = [(''image'', \<lparr>href = ''https://naipeuwest.blob.core.windows.net/naip/m.tif'',
                            media_type = ''image/tiff'', extra_fields = []\<rparr>)]\<rparr>"

text \<open>
  A float library for the county summary: binary64 numbers as in \<open>create_image\<close>, with
  \<open>None\<close> for NaN and no infinities or signed zero. Products, quotients, sums and
  differences are rounded to the nearest double, ties to the even mantissa. The sum of a
  group skips NaN and adds the rest with a running compensation (Kahan), as
  \<open>groupby(...).sum()\<close> of pandas does, first inside each partition that has rows of the
  group and then over the sums of the partitions, as dask does for a few partitions.
\<close>

type_synonym float64 = "double option"

definition round_double :: "int \<Rightarrow> int \<Rightarrow> double" where
  \<comment> \<open>\<open>m * 2^k\<close> rounded to 53 significant bits\<close>
  "round_double m k =
     (if m = 0 then (0, 0)
      else let (a, e) = div_round (\<bar>m\<bar> * 2 ^ nat k) (2 ^ nat (- k)) in (sgn m * a, e))"

definition double_add :: "double \<Rightarrow> double \<Rightarrow> double" where
  "double_add x y =
     (let k = min (snd x) (snd y)
      in round_double (fst x * 2 ^ nat (snd x - k) + fst y * 2 ^ nat (snd y - k)) k)"

definition double_sub :: "double \<Rightarrow> double \<Rightarrow> double" where
  "double_sub x y = double_add x (- fst y, snd y)"

definition float64_mul :: "float64 \<Rightarrow> float64 \<Rightarrow> float64" where
  "float64_mul x y =
     (case (x, y) of
        (Some a, Some b) \<Rightarrow> Some (round_double (fst a * fst b) (snd a + snd b))
      | _ \<Rightarrow> None)"

definition float64_div :: "float64 \<Rightarrow> int \<Rightarrow> float64" where
  \<comment> \<open>the quotient by an integer other than 0\<close>
  "float64_div x n =
     (case x of
        None \<Rightarrow> None
      | Some a \<Rightarrow>
          if n = 0 then None
          else if fst a = 0 then Some (0, 0)
          else let (m, e) = div_round (\<bar>fst a\<bar> * 2 ^ nat (snd a)) (\<bar>n\<bar> * 2 ^ nat (- snd a))
               in Some (sgn (fst a) * sgn n * m, e))"

fun kahan :: "double \<Rightarrow> double \<Rightarrow> float64 list \<Rightarrow> double" where
  "kahan sumx compensation [] = sumx"
| "kahan sumx compensation (None # vals) = kahan sumx compensation vals"
| "kahan sumx compensation (Some val # vals) =
     (let y = double_sub val compensation;
          t = double_add sumx y
      in kahan t (double_sub (double_sub t sumx) y) vals)"

definition group_sum :: "float64 list \<Rightarrow> float64" where
  "group_sum vals = Some (kahan (0, 0) (0, 0) vals)"

definition float64_lib :: "float64 frame_lib" where
  "float64_lib =
     \<lparr>col_mul = float64_mul, col_div = float64_div,
      col_sum = (\<lambda>partitions. group_sum (map group_sum (filter (\<lambda>vals. vals \<noteq> []) partitions)))\<rparr>"

text \<open>Arithmetic without rounding, on real numbers.\<close>

definition exact_lib :: "real frame_lib" where
  "exact_lib =
     \<lparr>col_mul = (*), col_div = (\<lambda>x n. x / real_of_int n),
      col_sum = (\<lambda>partitions. sum_list (concat partitions))\<rparr>"

text \<open>
  Two partitions of trees and two of plots. The first tree gives \<open>1.0 * 1.0 / 2000\<close>,
  which is not a double and is rounded; the second has no biomass (NaN); the third is
  not of condition 1; the fifth has no plot.
\<close>

definition trees :: "float64 tree_row list list" where
  "trees =
     [[\<lparr>PLT_CN = 10, CONDID = 1, TREE = 1, DRYBIO_AG = Some (1, 0), CARBON_AG = Some (1, - 1),
        TPA_UNADJ = Some (1, 0)\<rparr>,
       \<lparr>PLT_CN = 11, CONDID = 1, TREE = 1, DRYBIO_AG = None, CARBON_AG = Some (500, 0),
        TPA_UNADJ = Some (2, 0)\<rparr>,
       \<lparr>PLT_CN = 10, CONDID = 2, TREE = 2, DRYBIO_AG = Some (9000, 0), CARBON_AG = Some (4500, 0),
        TPA_UNADJ = Some (6, 0)\<rparr>],
      [\<lparr>PLT_CN = 12, CONDID = 1, TREE = 1, DRYBIO_AG = Some (3000, 0), CARBON_AG = Some (1500, 0),
        TPA_UNADJ = Some (4, 0)\<rparr>,
       \<lparr>PLT_CN = 99, CONDID = 1, TREE = 1, DRYBIO_AG = Some (7000, 0), CARBON_AG = Some (1500, 0),
        TPA_UNADJ = Some (4, 0)\<rparr>,
       \<lparr>PLT_CN = 10, CONDID = 1, TREE = 3, DRYBIO_AG = Some (4000, 0), CARBON_AG = Some (2000, 0),
        TPA_UNADJ = Some (6, 0)\<rparr>]]"

definition plots :: "plot_row list list" where
  "plots = [[\<lparr>CN = 12, STATECD = 1, COUNTYCD = 3\<rparr>, \<lparr>CN = 10, STATECD = 1, COUNTYCD = 1\<rparr>],
            [\<lparr>CN = 11, STATECD = 1, COUNTYCD = 1\<rparr>, \<lparr>CN = 13, STATECD = 12, COUNTYCD = 101\<rparr>]]"

definition blob_signer :: signer where
  "blob_signer =
     \<lparr>requires_authorization = (\<lambda>h. prefix ''https://naipeuwest.blob.core.windows.net/'' h),
      access_token = (\<lambda>h. ''st=2023-04-01&se=2023-04-02&sp=rl&sig=abc''),
      re_signs = False\<rparr>"

text \<open>The registration recorded in the notebook: its filter, identifier and render options.\<close>

definition recorded_options :: string where
  "recorded_options = ''assets=B04&assets=B03&assets=B02&nodata=0&color_formula=Gamma RGB 3.2 Saturation 0.8 Sigmoidal RGB 25 0.35''"

datatype cql2 = Op string "cql2 list" | Property string | Text string | Number int | Geometry geometry

definition recorded_aoi :: geometry where
  "recorded_aoi = Polygon [[(29, 7), (31, 7), (31, 10), (29, 10), (29, 7)]]"

definition recorded_filter :: cql2 where
  "recorded_filter =
     Op ''and''
       [Op ''s_intersects'' [Property ''geometry'', Geometry recorded_aoi],
        Op ''='' [Property ''collection'', Text ''sentinel-2-l2a''],
        Op ''<='' [Property ''eo:cloud_cover'', Number 10]]"

definition recorded_assign :: "cql2 register_body \<Rightarrow> string option" where
  "recorded_assign body =
     (if collection body = ''sentinel-2-l2a'' \<and> filter_json body = recorded_filter
      then Some ''125b5f36fbc3a2e80e011495798a9739'' else None)"


text \<open>A catalog of six Sentinel-2 items served in pages of two.\<close>

definition s2_item :: "string \<Rightarrow> nat \<Rightarrow> nat \<Rightarrow> string \<Rightarrow> item" where
  "s2_item name d secs platform =
     \<lparr>item_id = name, item_geometry = Point (0, 0),
      item_datetime = Some \<lparr>year = 2023, month = 4, day = d, seconds = secs\<rparr>,
      collection_id = ''sentinel-2-l2a'', properties = [(''platform'', platform)], assets = []\<rparr>"
definition small_api :: stac_api where
  "small_api =
     \<lparr>catalog = [s2_item ''a'' 1 500 ''Sentinel-2B'', s2_item ''b'' 2 10 ''Sentinel-2B'',
                 s2_item ''c'' 1 100 ''Sentinel-2A'', s2_item ''d'' 1 300 ''Sentinel-2B'',
                 s2_item ''e'' 1 200 ''Sentinel-2B'', s2_item ''f'' 1 400 ''Sentinel-2B''],
      page_size = 2\<rparr>"
section \<open>Properties of the footprint browser\<close>

lemma browse_frame:
  "browse centroid isoformat layer it st = (st', r) \<Longrightarrow>
     zoom (m_map st') = zoom (m_map st) \<and> layers (m_map st') = layers (m_map st) \<and>
     layout_width (m_map st') = layout_width (m_map st) \<and>
     (\<forall>a. a \<noteq> layer \<longrightarrow> objs st' a = objs st a)"
  by (auto simp: browse_def Let_def split: option.splits)

lemma browse_success:
  assumes "browse centroid isoformat layer it st = (st', Inr ())"
  shows "\<exists>c l. centroid (item_geometry it) = Some c \<and> objs st layer = Some l \<and>
           center (m_map st') = (snd c, fst c) \<and>
           objs st' layer = Some (l\<lparr>data := Some (item_geometry it)\<rparr>)"
  using assms by (auto simp: browse_def Let_def reversed_pair_def split: option.splits)

lemma browse_returns:
  assumes "centroid (item_geometry it) = Some c" "objs st layer = Some l"
    "item_datetime it = Some d"
  shows "\<exists>st'. browse centroid isoformat layer it st = (st', Inr ())"
  using assms by (simp add: browse_def Let_def)

lemma browse_example:
  "browse example_centroid (\<lambda>d. ''2023-04-01'') 1 example_item initial_widgets
     = (selected_widgets, Inr ())"
  by (simp add: browse_def initial_widgets_def selected_widgets_def example_item_def
      example_centroid_def reversed_pair_def Let_def)

text \<open>
  Claim C10. For every selected item the \<open>browse\<close> callback changes the map's display
  state in two places only: the map center becomes the centroid of the item's geometry
  with the pair reversed from (longitude, latitude) to (latitude, longitude), and the
  data of the GeoJSON layer becomes exactly the item's geometry. The zoom level, the list
  of layers, the layout and every other layer object are what they were, whether the
  callback returns or raises.
\<close>

theorem browse_mutates_center_and_layer_data_only:
  assumes "browse centroid isoformat layer it st = (st', r)"
  shows "zoom (m_map st') = zoom (m_map st) \<and> layers (m_map st') = layers (m_map st) \<and>
         layout_width (m_map st') = layout_width (m_map st) \<and>
         (\<forall>a. a \<noteq> layer \<longrightarrow> objs st' a = objs st a) \<and>
         (r = Inr () \<longrightarrow>
            (\<exists>c l. centroid (item_geometry it) = Some c \<and> objs st layer = Some l \<and>
                   center (m_map st') = (snd c, fst c) \<and>
                   objs st' layer = Some (l\<lparr>data := Some (item_geometry it)\<rparr>)))"
  using browse_frame[OF assms] browse_success[of centroid isoformat layer it st st'] assms
  by blast

theorem browse_witness:
  "browse example_centroid (\<lambda>d. ''2023-04-01'') 1 example_item initial_widgets
     = (selected_widgets, Inr ()) \<and>
   zoom (m_map selected_widgets) = zoom (m_map initial_widgets) \<and>
   layers (m_map selected_widgets) = layers (m_map initial_widgets) \<and>
   center (m_map selected_widgets) = (81, -121) \<and>
   objs selected_widgets 0 = objs initial_widgets 0"
proof -
  have h: "browse example_centroid (\<lambda>d. ''2023-04-01'') 1 example_item initial_widgets
     = (selected_widgets, Inr ())" by (rule browse_example)
  show ?thesis
    using h browse_mutates_center_and_layer_data_only [OF h]
    by (simp add: selected_widgets_def initial_widgets_def)
qed


section \<open>Properties of the overlap ranking\<close>

lemma decorate_total:
  "decorate (\<lambda>x. Inr (f x)) xs = Inr (map (\<lambda>x. (f x, x)) xs)"
  by (induction xs) simp_all

lemma insort_key_decorated:
  "insort_key fst (f x, x) (map (\<lambda>x. (f x, x)) zs) = map (\<lambda>x. (f x, x)) (insort_key f x zs)"
  by (induction zs) simp_all

lemma sort_key_decorated:
  "sort_key fst (map (\<lambda>x. (f x, x)) zs) = map (\<lambda>x. (f x, x)) (sort_key f zs)"
  by (induction zs) (simp_all add: insort_key_decorated)

lemma sorted_reverse_total:
  "sorted_reverse (\<lambda>x. Inr (f x)) xs = Inr (rev (sort_key f (rev xs)))"
  by (simp add: sorted_reverse_def decorate_total sort_key_decorated rev_map comp_def)

lemma area_of_overlap_ok:
  "area aoi \<noteq> 0 \<Longrightarrow> area_of_overlap fdiv isect area aoi = (\<lambda>it. Inr (overlap_ratio fdiv isect area aoi it))"
  by (rule ext) (simp add: area_of_overlap_def overlap_ratio_def Let_def)

lemma desc_sorted: "sorted (rev (map f (rev (sort_key f zs))))"
  by (simp add: rev_map)

lemma desc_stable: "filter (\<lambda>y. f y = k) (rev (sort_key f (rev xs))) = filter (\<lambda>y. f y = k) xs"
  by (simp add: rev_filter[symmetric] sort_key_stable)

lemma desc_hd_max:
  fixes f :: "'a \<Rightarrow> real"
  assumes "sorted (rev (map f ys))" "x \<in> set ys"
  shows "f x \<le> f (hd ys)"
proof (cases ys)
  case Nil
  then show ?thesis using assms by simp
next
  case (Cons y ys')
  then show ?thesis using assms by (auto simp: sorted_append)
qed

lemma stable_hd:
  assumes "ys \<noteq> []" "filter (\<lambda>y. f y = f (hd ys)) ys = filter (\<lambda>y. f y = f (hd ys)) xs"
  shows "hd ys = hd (filter (\<lambda>y. f y = f (hd ys)) xs)"
proof -
  obtain y ys' where ys: "ys = y # ys'" using assms(1) by (cases ys) auto
  have "hd (filter (\<lambda>z. f z = f (hd ys)) ys) = hd ys" by (simp add: ys)
  then show ?thesis unfolding assms(2) by simp
qed


text \<open>
  Claim C5. For a polygon area of interest (its area is not zero) and every list of
  candidate items, \<open>sorted(items, key=area_of_overlap, reverse=True)\<close> returns a
  permutation of the candidates in descending order of
  \<open>intersection(item, AOI).area / AOI.area\<close>; candidates of equal ratio keep their
  input order; and on a non-empty list the element \<open>[0]\<close> has maximal ratio and is
  the earliest candidate of that ratio.
\<close>

theorem area_overlap_ranking:
  assumes "area area_of_interest \<noteq> 0"
  shows "\<exists>ys. sorted_reverse (area_of_overlap fdiv isect area area_of_interest) items = Inr ys \<and>
           mset ys = mset items \<and>
           sorted (rev (map (overlap_ratio fdiv isect area area_of_interest) ys)) \<and>
           (\<forall>k. filter (\<lambda>i. overlap_ratio fdiv isect area area_of_interest i = k) ys
                 = filter (\<lambda>i. overlap_ratio fdiv isect area area_of_interest i = k) items) \<and>
           (items \<noteq> [] \<longrightarrow>
              choose_item fdiv isect area area_of_interest items = Inr (hd ys) \<and>
              (\<forall>i \<in> set items. overlap_ratio fdiv isect area area_of_interest i
                    \<le> overlap_ratio fdiv isect area area_of_interest (hd ys)) \<and>
              hd ys = hd (filter (\<lambda>i. overlap_ratio fdiv isect area area_of_interest i
                    = overlap_ratio fdiv isect area area_of_interest (hd ys)) items))"
proof -
  let ?f = "overlap_ratio fdiv isect area area_of_interest"
  let ?ys = "rev (sort_key ?f (rev items))"
  have run: "sorted_reverse (area_of_overlap fdiv isect area area_of_interest) items = Inr ?ys"
    using assms by (simp add: area_of_overlap_ok[where area=area and aoi=area_of_interest] sorted_reverse_total)
  have perm: "mset ?ys = mset items" by simp
  have desc: "sorted (rev (map ?f ?ys))" by (rule desc_sorted)
  have stab: "filter (\<lambda>i. ?f i = k) ?ys = filter (\<lambda>i. ?f i = k) items" for k
    by (rule desc_stable)
  have sel: "choose_item fdiv isect area area_of_interest items = Inr (hd ?ys) \<and>
      (\<forall>i \<in> set items. ?f i \<le> ?f (hd ?ys)) \<and>
      hd ?ys = hd (filter (\<lambda>i. ?f i = ?f (hd ?ys)) items)" if ne: "items \<noteq> []"
  proof -
    have ne': "?ys \<noteq> []" using ne by (metis perm mset_zero_iff)
    then obtain y ys' where ys: "?ys = y # ys'" by (cases ?ys) auto
    have 1: "choose_item fdiv isect area area_of_interest items = Inr (hd ?ys)"
      unfolding choose_item_def run by (simp add: first_of_def ys)
    have 2: "\<forall>i \<in> set items. ?f i \<le> ?f (hd ?ys)"
    proof
      fix i assume "i \<in> set items"
      then have "i \<in> set ?ys" by simp
      with desc show "?f i \<le> ?f (hd ?ys)" by (rule desc_hd_max)
    qed
    have 3: "hd ?ys = hd (filter (\<lambda>i. ?f i = ?f (hd ?ys)) items)"
      by (rule stable_hd[OF ne' stab])
    from 1 2 3 show ?thesis by blast
  qed
  from run perm desc stab sel show ?thesis by blast
qed

theorem area_overlap_ranking_witness:
  "example_area (Polygon [[], [], [], []]) \<noteq> 0 \<and>
   sorted_reverse (area_of_overlap (/) example_intersection example_area (Polygon [[], [], [], []]))
     [scene ''a'' 1, scene ''b'' 3, scene ''c'' 2, scene ''d'' 3]
     = Inr [scene ''b'' 3, scene ''d'' 3, scene ''c'' 2, scene ''a'' 1] \<and>
   choose_item (/) example_intersection example_area (Polygon [[], [], [], []])
     [scene ''a'' 1, scene ''b'' 3, scene ''c'' 2, scene ''d'' 3] = Inr (scene ''b'' 3)"
proof -
  have h: "example_area (Polygon [[], [], [], []]) \<noteq> 0" by (simp add: example_area_def)
  have s: "sorted_reverse (area_of_overlap (/) example_intersection example_area (Polygon [[], [], [], []]))
     [scene ''a'' 1, scene ''b'' 3, scene ''c'' 2, scene ''d'' 3]
     = Inr [scene ''b'' 3, scene ''d'' 3, scene ''c'' 2, scene ''a'' 1]"
    by (simp add: sorted_reverse_def area_of_overlap_def example_area_def
        example_intersection_def scene_def Let_def)
  show ?thesis
    using h s area_overlap_ranking [where area = example_area
        and area_of_interest = "Polygon [[], [], [], []]" and isect = example_intersection and fdiv = "(/)"
        and items = "[scene ''a'' 1, scene ''b'' 3, scene ''c'' 2, scene ''d'' 3]"]
    by auto
qed


section \<open>Rounding error of the float division\<close>

lemma powi_split: "(2::real) powi d = 2 ^ nat d / 2 ^ nat (- d)"
  by (cases "d \<ge> 0") (simp_all add: power_int_def field_simps)

lemma bitlen_powi_bounds:
  assumes "0 < p"
  shows "(2::real) powi (bitlen p - 1) \<le> real_of_int p" "real_of_int p < 2 powi (bitlen p)"
proof -
  from bitlen_bounds[OF assms]
  have a: "2 ^ nat (bitlen p - 1) \<le> p" and b: "p < 2 ^ nat (bitlen p)" by auto
  have ge1: "1 \<le> bitlen p" using assms by (simp add: bitlen_alt_def)
  have "real_of_int (2 ^ nat (bitlen p - 1)) \<le> real_of_int p" using a by (simp only: of_int_le_iff)
  then show "(2::real) powi (bitlen p - 1) \<le> real_of_int p"
    using ge1 by (simp add: power_int_nonneg_exp)
  have "real_of_int p < real_of_int (2 ^ nat (bitlen p))" using b by (simp only: of_int_less_iff)
  then show "real_of_int p < 2 powi (bitlen p)"
    using ge1 by (simp add: power_int_nonneg_exp)
qed

lemma binade_test:
  assumes "0 < q"
  shows "(q * 2 ^ nat d \<le> p * 2 ^ nat (- d)) \<longleftrightarrow> (2::real) powi d \<le> real_of_int p / real_of_int q"
proof -
  have "(q * 2 ^ nat d \<le> p * 2 ^ nat (- d))
      \<longleftrightarrow> real_of_int (q * 2 ^ nat d) \<le> real_of_int (p * 2 ^ nat (- d))"
    by (simp only: of_int_le_iff)
  also have "\<dots> \<longleftrightarrow> real_of_int q * 2 ^ nat d \<le> real_of_int p * 2 ^ nat (- d)" by simp
  also have "\<dots> \<longleftrightarrow> (2::real) ^ nat d / 2 ^ nat (- d) \<le> real_of_int p / real_of_int q"
    using assms by (simp add: field_simps)
  finally show ?thesis by (simp add: powi_split)
qed

lemma binade_bounds:
  assumes "0 < p" "0 < q"
  shows "(2::real) powi (binade p q) \<le> real_of_int p / real_of_int q"
    and "real_of_int p / real_of_int q < 2 powi (binade p q + 1)"
proof -
  let ?d = "bitlen p - bitlen q"
  let ?r = "real_of_int p / real_of_int q"
  have qpos: "0 < real_of_int q" using assms by simp
  have ppos: "0 < real_of_int p" using assms by simp
  note P = bitlen_powi_bounds[OF assms(1)]
  note Q = bitlen_powi_bounds[OF assms(2)]
  have up: "?r < 2 powi (?d + 1)"
  proof -
    have "?r < 2 powi (bitlen p) / real_of_int q"
      using P(2) qpos by (simp add: divide_strict_right_mono)
    also have "\<dots> \<le> 2 powi (bitlen p) / 2 powi (bitlen q - 1)"
      using Q(1) qpos by (intro divide_left_mono) (simp_all add: zero_less_mult_iff)
    also have "\<dots> = 2 powi (?d + 1)"
      by (simp add: power_int_diff[symmetric] algebra_simps)
    finally show ?thesis .
  qed
  have lo: "2 powi (?d - 1) \<le> ?r"
  proof -
    have "2 powi (?d - 1) = (2::real) powi (bitlen p - 1) / 2 powi (bitlen q)"
      by (simp add: power_int_diff[symmetric] algebra_simps)
    also have "\<dots> \<le> real_of_int p / 2 powi (bitlen q)"
      using P(1) by (simp add: divide_right_mono)
    also have "\<dots> \<le> ?r"
      using Q(2) ppos qpos by (intro divide_left_mono) (simp_all add: zero_less_mult_iff)
    finally show ?thesis .
  qed
  show "(2::real) powi (binade p q) \<le> ?r"
    using lo binade_test[OF assms(2), of ?d p] by (simp add: binade_def Let_def)
  show "?r < 2 powi (binade p q + 1)"
    using up binade_test[OF assms(2), of ?d p] by (auto simp add: binade_def Let_def)
qed


lemma round_half_even_close:
  assumes "0 < b"
  shows "\<bar>real_of_int (round_half_even a b) - real_of_int a / real_of_int b\<bar> \<le> 1 / 2"
proof -
  let ?q = "a div b" and ?r = "a mod b"
  have bpos: "0 < real_of_int b" using assms by simp
  have r: "0 \<le> ?r" "?r < b" using assms by simp_all
  have "a = b * ?q + ?r" by simp
  then have "real_of_int a = real_of_int b * real_of_int ?q + real_of_int ?r"
    by (metis of_int_add of_int_mult)
  then have quot: "real_of_int a / real_of_int b = real_of_int ?q + real_of_int ?r / real_of_int b"
    using bpos by (simp add: field_simps)
  have r0: "0 \<le> real_of_int ?r / real_of_int b" using r(1) bpos by simp
  consider "2 * ?r < b" | "b < 2 * ?r" | "2 * ?r = b" by linarith
  then show ?thesis
  proof cases
    case 1
    then have "2 * real_of_int ?r < real_of_int b" by (metis of_int_less_iff of_int_mult of_int_numeral)
    then have "real_of_int ?r / real_of_int b < 1 / 2" using bpos by (simp add: field_simps)
    then show ?thesis using 1 r0 by (simp add: round_half_even_def Let_def quot)
  next
    case 2
    then have "real_of_int b < 2 * real_of_int ?r" by (metis of_int_less_iff of_int_mult of_int_numeral)
    then have a: "1 / 2 < real_of_int ?r / real_of_int b" using bpos by (simp add: field_simps)
    have "real_of_int ?r < real_of_int b" using r(2) by simp
    then have b: "real_of_int ?r / real_of_int b < 1" using bpos by simp
    show ?thesis using 2 a b by (simp add: round_half_even_def Let_def quot)
  next
    case 3
    then have "2 * real_of_int ?r = real_of_int b" by (metis of_int_mult of_int_numeral)
    then have h: "real_of_int ?r / real_of_int b = 1 / 2" using bpos by (simp add: field_simps)
    have "round_half_even a b = ?q \<or> round_half_even a b = ?q + 1"
      using 3 by (simp add: round_half_even_def Let_def)
    then show ?thesis
    proof
      assume "round_half_even a b = ?q"
      then show ?thesis unfolding quot h by simp
    next
      assume "round_half_even a b = ?q + 1"
      then show ?thesis unfolding quot h by simp
    qed
  qed
qed

lemma div_round_close:
  assumes "0 < p" "0 < q"
  shows "\<bar>dval (div_round p q) - real_of_int p / real_of_int q\<bar>
           \<le> (real_of_int p / real_of_int q) / 2 ^ 53"
    and "0 < fst (div_round p q)"
proof -
  let ?e = "binade p q"
  let ?s = "52 - ?e"
  let ?A = "p * 2 ^ nat ?s" and ?B = "q * 2 ^ nat (- ?s)"
  let ?m = "round_half_even ?A ?B"
  let ?r = "real_of_int p / real_of_int q"
  let ?X = "?r * 2 powi ?s"
  have dr: "div_round p q = (?m, ?e - 52)"
    using assms(1) by (simp add: div_round_def Let_def)
  have Bpos: "0 < ?B" using assms(2) by simp
  have AB: "real_of_int ?A / real_of_int ?B = ?X"
    by (simp add: powi_split[of ?s])
  have close: "\<bar>real_of_int ?m - ?X\<bar> \<le> 1 / 2"
    using round_half_even_close[OF Bpos, of ?A] by (simp only: AB)
  have scale: "(2::real) powi ?s * 2 powi (?e - 52) = 1"
    by (simp add: power_int_add[symmetric])
  have rX: "?r = ?X * 2 powi (?e - 52)"
    using scale by (simp add: mult.assoc)
  have "\<bar>dval (div_round p q) - ?r\<bar> = \<bar>real_of_int ?m - ?X\<bar> * 2 powi (?e - 52)"
  proof -
    have "dval (div_round p q) - ?r = (real_of_int ?m - ?X) * 2 powi (?e - 52)"
      unfolding dr dval_def using rX by (simp add: algebra_simps)
    then show ?thesis by (simp add: abs_mult)
  qed
  also have "\<dots> \<le> (1 / 2) * 2 powi (?e - 52)"
    using close by (intro mult_right_mono) simp_all
  also have "\<dots> = 2 powi ?e / 2 ^ 53"
  proof -
    have "(2::real) powi (?e - 52) = 2 powi ?e / 2 powi 52" by (simp add: power_int_diff)
    then show ?thesis by simp
  qed
  also have "\<dots> \<le> ?r / 2 ^ 53"
    using binade_bounds(1)[OF assms] by (simp add: divide_right_mono)
  finally show "\<bar>dval (div_round p q) - ?r\<bar> \<le> ?r / 2 ^ 53" .
  have "(2::real) powi ?e * 2 powi ?s \<le> ?X"
    using binade_bounds(1)[OF assms] by (intro mult_right_mono) simp_all
  moreover have "(2::real) powi ?e * 2 powi ?s = 2 ^ 52"
    by (simp add: power_int_add[symmetric])
  ultimately have "(2::real) ^ 52 \<le> ?X" by simp
  moreover have "(1::real) \<le> 2 ^ 52" by simp
  ultimately have "0 < real_of_int ?m" using close by linarith
  then show "0 < fst (div_round p q)" by (simp add: dr)
qed

lemma py_int_floor:
  assumes "0 \<le> fst x"
  shows "py_int x = \<lfloor>dval x\<rfloor>"
proof (cases "0 \<le> snd x")
  case True
  then have "dval x = real_of_int (fst x * 2 ^ nat (snd x))"
    by (simp add: dval_def power_int_nonneg_exp)
  then have "\<lfloor>dval x\<rfloor> = fst x * 2 ^ nat (snd x)" by (simp only: floor_of_int)
  then show ?thesis using True by (simp add: py_int_def)
next
  case False
  then have neg: "snd x < 0" by simp
  have "dval x = real_of_int (fst x) / real_of_int (2 ^ nat (- snd x))"
    using neg by (simp add: dval_def power_int_def field_simps)
  then have "\<lfloor>dval x\<rfloor> = fst x div 2 ^ nat (- snd x)"
    by (simp only: floor_divide_of_int_eq)
  moreover have "sgn (fst x) * (\<bar>fst x\<bar> div 2 ^ nat (- snd x)) = fst x div 2 ^ nat (- snd x)"
    using assms by (cases "fst x = 0") (simp_all add: sgn_if)
  ultimately show ?thesis using neg by (simp add: py_int_def)
qed

lemma ratio_up:
  fixes u :: real
  assumes "0 \<le> u" "u \<le> 1 / 2"
  shows "(1 + u) / (1 - u) \<le> 1 + 4 * u"
proof -
  have "u * u \<le> u * (1 / 2)" using assms by (intro mult_left_mono) simp_all
  then have "1 + u \<le> (1 + 4 * u) * (1 - u)" by (simp add: algebra_simps)
  moreover have "0 < 1 - u" using assms by simp
  ultimately show ?thesis by (simp add: pos_divide_le_eq)
qed

lemma ratio_down:
  fixes u :: real
  assumes "0 \<le> u"
  shows "1 - 2 * u \<le> (1 - u) / (1 + u)"
proof -
  have "0 \<le> u * u" by simp
  then have "(1 - 2 * u) * (1 + u) \<le> 1 - u" by (simp add: algebra_simps)
  moreover have "0 < 1 + u" using assms by simp
  ultimately show ?thesis by (simp add: pos_le_divide_eq)
qed

lemma two_roundings:
  fixes r a b u c :: real
  assumes r: "0 < r" and c: "0 < c" and u: "0 \<le> u" "u \<le> 1 / 2"
    and a: "\<bar>a - r\<bar> \<le> r * u" and b: "\<bar>b - c / a\<bar> \<le> (c / a) * u"
  shows "(c / r) * (1 - 2 * u) \<le> b" and "b \<le> (c / r) * (1 + 4 * u)"
proof -
  define t where "t = c / a"
  have lo: "r * (1 - u) \<le> a" and hi: "a \<le> r * (1 + u)"
    using a by (simp_all add: algebra_simps abs_le_iff)
  have pos1: "0 < r * (1 - u)" using r u by simp
  have apos: "0 < a" using lo pos1 by linarith
  have pos2: "0 < r * (1 + u)" using r u by simp
  have t_hi: "t \<le> c / (r * (1 - u))"
    unfolding t_def using lo pos1 apos c
    by (intro divide_left_mono) (simp_all add: zero_less_mult_iff)
  have t_lo: "c / (r * (1 + u)) \<le> t"
    unfolding t_def using hi pos2 apos c
    by (intro divide_left_mono) (simp_all add: zero_less_mult_iff)
  have b': "\<bar>b - t\<bar> \<le> t * u" using b by (simp add: t_def)
  have b_hi: "b \<le> t * (1 + u)" and b_lo: "t * (1 - u) \<le> b"
    using b' by (simp_all add: algebra_simps abs_le_iff)
  have crpos: "0 \<le> c / r" using r c by simp
  have "t * (1 + u) \<le> (c / (r * (1 - u))) * (1 + u)"
    using t_hi u by (intro mult_right_mono) simp_all
  with b_hi have "b \<le> (c / (r * (1 - u))) * (1 + u)" by linarith
  also have "\<dots> = (c / r) * ((1 + u) / (1 - u))" by simp
  also have "\<dots> \<le> (c / r) * (1 + 4 * u)"
    using ratio_up[OF u] crpos by (intro mult_left_mono)
  finally show "b \<le> (c / r) * (1 + 4 * u)" .
  have "(c / r) * (1 - 2 * u) \<le> (c / r) * ((1 - u) / (1 + u))"
    using ratio_down[OF u(1)] crpos by (intro mult_left_mono)
  also have "\<dots> = (c / (r * (1 + u))) * (1 - u)" by simp
  also have "\<dots> \<le> t * (1 - u)"
    using t_lo u by (intro mult_right_mono) simp_all
  also have "\<dots> \<le> b" by (rule b_lo)
  finally show "(c / r) * (1 - 2 * u) \<le> b" .
qed

lemma float_truediv_quotient:
  assumes "0 < fst x" "0 < a"
  shows "\<exists>P Q. float_truediv a x = Inr (div_round P Q) \<and> 0 < P \<and> 0 < Q \<and>
           real_of_int P / real_of_int Q = real_of_int a / dval x"
proof -
  let ?P = "a * 2 ^ nat (- snd x)" and ?Q = "fst x * 2 ^ nat (snd x)"
  have "float_truediv a x = Inr (div_round ?P ?Q)"
    using assms by (simp add: float_truediv_def)
  moreover have "0 < ?P" "0 < ?Q" using assms by simp_all
  moreover have "real_of_int ?P / real_of_int ?Q = real_of_int a / dval x"
    by (simp add: dval_def powi_split[of "snd x"])
  ultimately show ?thesis by blast
qed

section \<open>Properties of \<open>create_image\<close>\<close>

lemma target_size_returns:
  assumes "0 < w" "0 < h"
  shows "\<exists>th. target_size w h = Inr (800, th)"
proof -
  have pq: "0 < int w" "0 < int h" using assms by simp_all
  have "0 < fst (div_round (int w) (int h))" by (rule div_round_close(2)[OF pq])
  then obtain P Q where "float_truediv 800 (div_round (int w) (int h)) = Inr (div_round P Q)"
    using float_truediv_quotient[of "div_round (int w) (int h)" 800] by auto
  then show ?thesis using assms by (simp add: target_size_def int_truediv_def)
qed

lemma target_size_zero: "h = 0 \<or> w = 0 \<Longrightarrow> target_size w h = Inl ZeroDivisionError"
  by (auto simp: target_size_def int_truediv_def float_truediv_def div_round_def)

lemma create_image_after_read:
  assumes "asset_href it ''image'' = Inr h0" "rasterio_open lib (pc_sign h0) = Inr ds"
    "read_window lib aoi ds = Inr band_data" "shape band_data = (b, hh, ww)"
  shows "create_image lib pc_sign aoi it =
           (if pil_accepts lib (transpose_120 band_data)
            then (case target_size ww hh of
                    Inl e \<Rightarrow> Inl e
                  | Inr ts \<Rightarrow>
                     resize lib \<lparr>size_wh = (ww, hh), pixels = transpose_120 band_data\<rparr> ts)
            else Inl ValueError)"
proof -
  have "shape (transpose_120 band_data) = (hh, ww, b)"
    using assms(4) by (simp add: transpose_120_def)
  then show ?thesis using assms(1-3) by (simp add: create_image_def fromarray_def Let_def)
qed

text \<open>
  Claim C4, as the code has it. When the windowed read for the requested bounds returns a
  zero-size array (no rows or no columns), \<open>create_image\<close> does not hand an empty result
  on: it raises. If \<open>Image.fromarray\<close> accepts the empty array the error is
  \<open>ZeroDivisionError\<close>, at \<open>w/h\<close> when there are no rows and at \<open>target_w/aspect\<close>
  when there are no columns; otherwise it is the error of \<open>Image.fromarray\<close>. An image
  comes back only from a window with at least one row and one column, resized to width
  800.
\<close>

theorem create_image_zero_size_window:
  assumes "asset_href it ''image'' = Inr h0" "rasterio_open lib (pc_sign h0) = Inr ds"
    "read_window lib aoi ds = Inr band_data" "shape band_data = (b, hh, ww)"
  shows "(hh = 0 \<or> ww = 0 \<longrightarrow>
            create_image lib pc_sign aoi it =
              Inl (if pil_accepts lib (transpose_120 band_data)
                   then ZeroDivisionError else ValueError)) \<and>
         (0 < hh \<and> 0 < ww \<and> pil_accepts lib (transpose_120 band_data) \<longrightarrow>
            (\<exists>th. create_image lib pc_sign aoi it =
               resize lib \<lparr>size_wh = (ww, hh), pixels = transpose_120 band_data\<rparr> (800, th)))"
proof (intro conjI impI)
  assume "hh = 0 \<or> ww = 0"
  then show "create_image lib pc_sign aoi it =
      Inl (if pil_accepts lib (transpose_120 band_data) then ZeroDivisionError else ValueError)"
    by (simp add: create_image_after_read[where pc_sign=pc_sign, OF assms] target_size_zero)
next
  assume a: "0 < hh \<and> 0 < ww \<and> pil_accepts lib (transpose_120 band_data)"
  then obtain th where "target_size ww hh = Inr (800, th)"
    using target_size_returns[of ww hh] by blast
  then show "\<exists>th. create_image lib pc_sign aoi it =
      resize lib \<lparr>size_wh = (ww, hh), pixels = transpose_120 band_data\<rparr> (800, th)"
    using a by (auto simp add: create_image_after_read[where pc_sign=pc_sign, OF assms])
qed

theorem create_image_zero_size_window_witness:
  "asset_href naip_item ''image'' = Inr ''https://naipeuwest.blob.core.windows.net/naip/m.tif'' \<and>
   read_window (example_lib 0 7) (Polygon []) ()
     = Inr \<lparr>shape = (3, 0, 7), elems = (\<lambda>k i j. 0)\<rparr> \<and>
   create_image (example_lib 0 7) (\<lambda>h. h) (Polygon []) naip_item = Inl ZeroDivisionError"
proof -
  have a: "asset_href naip_item ''image''
             = Inr ''https://naipeuwest.blob.core.windows.net/naip/m.tif''"
    by (simp add: asset_href_def naip_item_def)
  have b: "rasterio_open (example_lib 0 7)
             ((\<lambda>h. h) ''https://naipeuwest.blob.core.windows.net/naip/m.tif'') = Inr ()"
    by (simp add: example_lib_def)
  have c: "read_window (example_lib 0 7) (Polygon []) ()
             = Inr \<lparr>shape = (3, 0, 7), elems = (\<lambda>k i j. 0)\<rparr>"
    by (simp add: read_window_def example_lib_def)
  have d: "shape \<lparr>shape = (3, 0, 7), elems = (\<lambda>k i j. 0::nat)\<rparr> = (3, 0, 7)" by simp
  have e: "pil_accepts (example_lib 0 7) a" for a by (simp add: example_lib_def)
  show ?thesis
    using a c e create_image_zero_size_window [where pc_sign="\<lambda>h. h", OF a b c d] by simp
qed

text \<open>
  The claim as stated fails: here the windowed read returns the zero-size array the claim
  asks for, and \<open>create_image\<close> raises.
\<close>

theorem create_image_zero_size_counterexample:
  "read_window (example_lib 0 0) (Polygon []) ()
     = Inr \<lparr>shape = (3, 0, 0), elems = (\<lambda>k i j. 0)\<rparr> \<and>
   create_image (example_lib 0 0) (\<lambda>h. h) (Polygon []) naip_item = Inl ZeroDivisionError"
  by (simp add: create_image_def read_window_def example_lib_def naip_item_def asset_href_def
      fromarray_def transpose_120_def target_size_def int_truediv_def Let_def)

text \<open>
  Claim C6. Every image \<open>create_image\<close> returns was read as follows: the bounds of the
  area of interest are reprojected from \<open>'epsg:4326'\<close> to the CRS of the opened dataset,
  the pixel window is computed from those reprojected bounds and the dataset's transform,
  and bands 1, 2, 3 are read with exactly that window; the image is made of the array
  that read returned.
\<close>

theorem create_image_reads_reprojected_window:
  assumes "create_image lib pc_sign aoi it = Inr img"
  shows "\<exists>h0 ds aoi_bounds warped_aoi_bounds aoi_window band_data img0 ts.
           asset_href it ''image'' = Inr h0 \<and>
           rasterio_open lib (pc_sign h0) = Inr ds \<and>
           features_bounds lib aoi = Inr aoi_bounds \<and>
           transform_bounds lib ''epsg:4326'' (ds_crs lib ds) aoi_bounds = Inr warped_aoi_bounds \<and>
           from_bounds lib warped_aoi_bounds (ds_transform lib ds) = Inr aoi_window \<and>
           ds_read lib ds [1, 2, 3] aoi_window = Inr band_data \<and>
           fromarray lib (transpose_120 band_data) = Inr img0 \<and>
           resize lib img0 ts = Inr img"
proof -
  from assms obtain h0 where 1: "asset_href it ''image'' = Inr h0"
    by (auto simp: create_image_def split: sum.splits)
  from assms 1 obtain ds where 2: "rasterio_open lib (pc_sign h0) = Inr ds"
    by (auto simp: create_image_def split: sum.splits)
  from assms 1 2 obtain band_data where 3: "read_window lib aoi ds = Inr band_data"
    by (auto simp: create_image_def split: sum.splits)
  from assms 1 2 3 obtain img0 where 4: "fromarray lib (transpose_120 band_data) = Inr img0"
    by (auto simp: create_image_def split: sum.splits)
  from assms 1 2 3 4 obtain ts where 5: "resize lib img0 ts = Inr img"
    by (auto simp: create_image_def Let_def split: sum.splits)
  from 3 obtain aoi_bounds warped_aoi_bounds aoi_window
    where "features_bounds lib aoi = Inr aoi_bounds"
      and "transform_bounds lib ''epsg:4326'' (ds_crs lib ds) aoi_bounds = Inr warped_aoi_bounds"
      and "from_bounds lib warped_aoi_bounds (ds_transform lib ds) = Inr aoi_window"
      and "ds_read lib ds [1, 2, 3] aoi_window = Inr band_data"
    by (auto simp: read_window_def split: sum.splits)
  with 1 2 4 5 show ?thesis by blast
qed

theorem create_image_reads_reprojected_window_witness:
  "create_image (example_lib 2 4) (\<lambda>h. h) (Polygon []) naip_item
     = Inr \<lparr>size_wh = (800, 400),
            pixels = \<lparr>shape = (2, 4, 3), elems = (\<lambda>i j k. 0)\<rparr>\<rparr> \<and>
   transform_bounds (example_lib 2 4) ''epsg:4326'' ''epsg:26912'' (- 112, 40, - 111, 41)
     = Inr (388, 4000, 389, 4100) \<and>
   ds_read (example_lib 2 4) () [1, 2, 3] (388, 4000, 389, 4100)
     = Inr \<lparr>shape = (3, 2, 4), elems = (\<lambda>k i j. 0)\<rparr>"
proof -
  have t: "target_size 4 2 = Inr (800, 400)" by code_simp
  have h: "create_image (example_lib 2 4) (\<lambda>h. h) (Polygon []) naip_item
     = Inr \<lparr>size_wh = (800, 400),
            pixels = \<lparr>shape = (2, 4, 3), elems = (\<lambda>i j k. 0)\<rparr>\<rparr>"
    by (simp add: create_image_def read_window_def example_lib_def naip_item_def asset_href_def
        fromarray_def transpose_120_def t Let_def)
  show ?thesis
    using h create_image_reads_reprojected_window [OF h]
    by (simp add: example_lib_def)
qed

text \<open>
  Claim C7, as the code has it. For a window of width \<open>w > 0\<close> and height \<open>h > 0\<close>
  (the height below \<open>2^31\<close>, as every image size is) the target size is
  \<open>(800, int(800 / (w/h)))\<close> and the computed height differs from the exact
  aspect-preserving height \<open>800 * h / w\<close> by at most one pixel. The two divisions are
  rounded to doubles before the truncation, so the difference can be a whole pixel.
\<close>

theorem target_height_within_one_pixel:
  assumes "0 < w" "0 < h" "h < 2 ^ 31"
  shows "\<exists>th. target_size w h = Inr (800, th) \<and>
           \<bar>real_of_int th - 800 * real h / real w\<bar> \<le> 1"
proof -
  let ?p = "int w" and ?q = "int h"
  define aspect where "aspect = div_round ?p ?q"
  define u :: real where "u = 1 / 2 ^ 53"
  define X :: real where "X = 800 * real h / real w"
  have pq: "0 < ?p" "0 < ?q" using assms by simp_all
  have wpos: "0 < real w" and hpos: "0 < real h" using assms by simp_all
  have A: "\<bar>dval aspect - real w / real h\<bar> \<le> (real w / real h) * u"
    and Apos: "0 < fst aspect"
    using div_round_close[OF pq] by (simp_all add: aspect_def u_def)
  have s1: "int_truediv ?p ?q = Inr aspect"
    using assms by (simp add: int_truediv_def aspect_def)
  obtain P Q where s2: "float_truediv 800 aspect = Inr (div_round P Q)"
    and PQ: "0 < P" "0 < Q"
    and quot: "real_of_int P / real_of_int Q = 800 / dval aspect"
    using float_truediv_quotient[OF Apos, of 800] by auto
  define b where "b = dval (div_round P Q)"
  have B: "\<bar>b - 800 / dval aspect\<bar> \<le> (800 / dval aspect) * u"
    and Bpos: "0 < fst (div_round P Q)"
    using div_round_close[OF PQ] by (simp_all add: quot b_def u_def)
  define th where "th = py_int (div_round P Q)"
  have th: "th = \<lfloor>b\<rfloor>"
    using py_int_floor[of "div_round P Q"] Bpos by (simp add: th_def b_def)
  have run: "target_size w h = Inr (800, th)"
    by (simp add: target_size_def s1 s2 th_def)
  have u: "0 \<le> u" "u \<le> 1 / 2" by (simp_all add: u_def)
  have rpos: "0 < real w / real h" using wpos hpos by simp
  have cr: "800 / (real w / real h) = X" by (simp add: X_def)
  have lo: "X * (1 - 2 * u) \<le> b" and hi: "b \<le> X * (1 + 4 * u)"
    using two_roundings[OF rpos _ u A B] unfolding cr by simp_all
  have X0: "0 \<le> X" using wpos hpos by (simp add: X_def)
  have "1 \<le> real w" using assms(1) by simp
  then have "X \<le> 800 * real h" unfolding X_def using hpos
    by (simp add: field_simps mult_left_mono)
  moreover have hb: "real h < 2 ^ 31" using assms(3)
    by (metis of_nat_less_iff of_nat_numeral of_nat_power)
  ultimately have Xb: "X \<le> 800 * 2 ^ 31" by linarith
  have bu: "X * (4 * u) \<le> 1"
  proof -
    have "X * (4 * u) \<le> (800 * 2 ^ 31) * (4 * u)"
      using Xb u by (intro mult_right_mono) simp_all
    also have "\<dots> \<le> 1" by (simp add: u_def)
    finally show ?thesis .
  qed
  have upper: "real_of_int th \<le> X + 1"
  proof -
    have "real_of_int th \<le> b" unfolding th by simp
    also have "\<dots> \<le> X + X * (4 * u)" using hi by (simp add: algebra_simps)
    also have "\<dots> \<le> X + 1" using bu by simp
    finally show ?thesis .
  qed
  have lower: "X - 1 \<le> real_of_int th"
  proof -
    have wX: "real w * X = 800 * real h" using wpos by (simp add: X_def)
    have small: "800 * real h * (2 * u) < 1"
    proof -
      have "800 * real h * (2 * u) = 1600 * real h * u" by simp
      also have "\<dots> \<le> 1600 * 2 ^ 31 * u" using hb u by (intro mult_right_mono) simp_all
      also have "\<dots> < 1" by (simp add: u_def)
      finally show ?thesis .
    qed
    have e1: "real w * (X * (1 - 2 * u)) = real w * X - real w * X * (2 * u)"
      by (simp add: algebra_simps)
    have e2: "real w * (real_of_int th + 1) = real w * real_of_int th + real w"
      by (simp add: algebra_simps)
    have "b < real_of_int th + 1" unfolding th by linarith
    with lo have "X * (1 - 2 * u) < real_of_int th + 1" by linarith
    then have "real w * (X * (1 - 2 * u)) < real w * (real_of_int th + 1)"
      using wpos by (simp only: mult_less_cancel_left_pos)
    then have "800 * real h - 800 * real h * (2 * u) < real w * real_of_int th + real w"
      unfolding e1 e2 wX .
    with small have "800 * real h - 1 < real w * real_of_int th + real w" by linarith
    then have "real_of_int (800 * int h - 1) < real_of_int (int w * th + int w)" by simp
    then have "800 * int h - 1 < int w * th + int w" by (simp only: of_int_less_iff)
    then have "800 * int h \<le> int w * th + int w" by linarith
    then have "real_of_int (800 * int h) \<le> real_of_int (int w * th + int w)"
      by (simp only: of_int_le_iff)
    then have "800 * real h \<le> real w * real_of_int th + real w" by simp
    then have "real w * X \<le> real w * (real_of_int th + 1)"
      unfolding e2 wX .
    then have "X \<le> real_of_int th + 1" using wpos by (simp only: mult_le_cancel_left_pos)
    then show ?thesis by linarith
  qed
  have "\<bar>real_of_int th - X\<bar> \<le> 1" using upper lower by (simp add: abs_le_iff)
  then show ?thesis using run by (auto simp: X_def)
qed

theorem target_height_within_one_pixel_witness:
  "(0::nat) < 1024 \<and> (0::nat) < 768 \<and> (768::nat) < 2 ^ 31 \<and>
   target_size 1024 768 = Inr (800, 600) \<and>
   (\<exists>th. target_size 1024 768 = Inr (800, th) \<and>
      \<bar>real_of_int th - 800 * real 768 / real 1024\<bar> \<le> 1)"
proof -
  have a: "(0::nat) < 1024" "(0::nat) < 768" "(768::nat) < 2 ^ 31"
    by simp_all
  have t: "target_size 1024 768 = Inr (800, 600)" by code_simp
  show ?thesis
    using t target_height_within_one_pixel [OF a] by simp
qed

text \<open>
  The claim as stated (a difference of less than one pixel) fails for a window 100 pixels
  wide and 127 high: \<open>100/127\<close> is the double \<open>0.7874015748031497\<close>, just above the
  exact quotient, \<open>800/aspect\<close> is the double \<open>1015.9999999999999\<close>, and \<open>int\<close>
  truncates it to 1015, a whole pixel under the exact height 1016.
\<close>

theorem target_height_counterexample:
  "int_truediv 100 127 = Inr (7092282877748813, - 53) \<and>
   float_truediv 800 (7092282877748813, - 53) = Inr (8936830510563327, - 43) \<and>
   target_size 100 127 = Inr (800, 1015) \<and>
   \<not> \<bar>real_of_int 1015 - 800 * real 127 / real 100\<bar> < 1"
proof -
  have a: "int_truediv 100 127 = Inr (7092282877748813, - 53)" by code_simp
  have b: "float_truediv 800 (7092282877748813, - 53) = Inr (8936830510563327, - 43)"
    by code_simp
  have t: "target_size 100 127 = Inr (800, 1015)" by code_simp
  show ?thesis using a b t by simp
qed

section \<open>Properties of the county summary\<close>

lemma joined_one_tree:
  "map (\<lambda>(t, p). g t p) (filter (\<lambda>(t, p). (STATECD p, COUNTYCD p) = k)
       (map (\<lambda>p. (t, p)) (filter (\<lambda>p. CN p = PLT_CN t) plot)))
   = [g t p. p \<leftarrow> plot, CN p = PLT_CN t, (STATECD p, COUNTYCD p) = k]"
  by (induction plot) simp_all

lemma joined_partition:
  "map (\<lambda>(t, p). g t p) (filter (\<lambda>(t, p). (STATECD p, COUNTYCD p) = k)
       (merge_on_PLT_CN (filter (\<lambda>t. CONDID t = 1) part) plot))
   = [g t p. t \<leftarrow> part, CONDID t = 1, p \<leftarrow> plot, CN p = PLT_CN t,
        (STATECD p, COUNTYCD p) = k]"
  by (induction part) (simp_all add: merge_on_PLT_CN_def joined_one_tree)

lemma df_group_bio:
  "map (\<lambda>part. map df_row.bio (filter (\<lambda>r. county_key r = k) part))
     (df lib (read_tree stored) plot)
   = map (\<lambda>part. [col_div lib (col_mul lib (DRYBIO_AG t) (TPA_UNADJ t)) 2000.
            t \<leftarrow> part, CONDID t = 1, p \<leftarrow> concat plot, CN p = PLT_CN t,
            (STATECD p, COUNTYCD p) = k]) stored"
proof -
  have one: "map df_row.bio (filter (\<lambda>r. county_key r = k)
        (map (\<lambda>(t, p). \<lparr>tree_cols = t, plot_cols = p,
                bio = col_div lib (col_mul lib (DRYBIO_AG t) (TPA_UNADJ t)) 2000,
                carbon = col_div lib (col_mul lib (CARBON_AG t) (TPA_UNADJ t)) 2000\<rparr>)
           (merge_on_PLT_CN (filter (\<lambda>t. CONDID t = 1) part) (concat plot))))
      = [col_div lib (col_mul lib (DRYBIO_AG t) (TPA_UNADJ t)) 2000.
            t \<leftarrow> part, CONDID t = 1, p \<leftarrow> concat plot, CN p = PLT_CN t,
            (STATECD p, COUNTYCD p) = k]" for part :: "'a tree_row list"
  proof -
    have "map df_row.bio (filter (\<lambda>r. county_key r = k)
        (map (\<lambda>(t, p). \<lparr>tree_cols = t, plot_cols = p,
                bio = col_div lib (col_mul lib (DRYBIO_AG t) (TPA_UNADJ t)) 2000,
                carbon = col_div lib (col_mul lib (CARBON_AG t) (TPA_UNADJ t)) 2000\<rparr>)
           (merge_on_PLT_CN (filter (\<lambda>t. CONDID t = 1) part) (concat plot))))
      = map (\<lambda>(t, p). col_div lib (col_mul lib (DRYBIO_AG t) (TPA_UNADJ t)) 2000)
          (filter (\<lambda>(t, p). (STATECD p, COUNTYCD p) = k)
             (merge_on_PLT_CN (filter (\<lambda>t. CONDID t = 1) part) (concat plot)))"
      by (simp add: filter_map comp_def county_key_def case_prod_unfold)
    then show ?thesis by (simp only: joined_partition)
  qed
  show ?thesis
    unfolding df_def read_tree_def compute_def map_map comp_def one ..
qed

lemma df_group_carbon:
  "map (\<lambda>part. map df_row.carbon (filter (\<lambda>r. county_key r = k) part))
     (df lib (read_tree stored) plot)
   = map (\<lambda>part. [col_div lib (col_mul lib (CARBON_AG t) (TPA_UNADJ t)) 2000.
            t \<leftarrow> part, CONDID t = 1, p \<leftarrow> concat plot, CN p = PLT_CN t,
            (STATECD p, COUNTYCD p) = k]) stored"
proof -
  have one: "map df_row.carbon (filter (\<lambda>r. county_key r = k)
        (map (\<lambda>(t, p). \<lparr>tree_cols = t, plot_cols = p,
                bio = col_div lib (col_mul lib (DRYBIO_AG t) (TPA_UNADJ t)) 2000,
                carbon = col_div lib (col_mul lib (CARBON_AG t) (TPA_UNADJ t)) 2000\<rparr>)
           (merge_on_PLT_CN (filter (\<lambda>t. CONDID t = 1) part) (concat plot))))
      = [col_div lib (col_mul lib (CARBON_AG t) (TPA_UNADJ t)) 2000.
            t \<leftarrow> part, CONDID t = 1, p \<leftarrow> concat plot, CN p = PLT_CN t,
            (STATECD p, COUNTYCD p) = k]" for part :: "'a tree_row list"
  proof -
    have "map df_row.carbon (filter (\<lambda>r. county_key r = k)
        (map (\<lambda>(t, p). \<lparr>tree_cols = t, plot_cols = p,
                bio = col_div lib (col_mul lib (DRYBIO_AG t) (TPA_UNADJ t)) 2000,
                carbon = col_div lib (col_mul lib (CARBON_AG t) (TPA_UNADJ t)) 2000\<rparr>)
           (merge_on_PLT_CN (filter (\<lambda>t. CONDID t = 1) part) (concat plot))))
      = map (\<lambda>(t, p). col_div lib (col_mul lib (CARBON_AG t) (TPA_UNADJ t)) 2000)
          (filter (\<lambda>(t, p). (STATECD p, COUNTYCD p) = k)
             (merge_on_PLT_CN (filter (\<lambda>t. CONDID t = 1) part) (concat plot)))"
      by (simp add: filter_map comp_def county_key_def case_prod_unfold)
    then show ?thesis by (simp only: joined_partition)
  qed
  show ?thesis
    unfolding df_def read_tree_def compute_def map_map comp_def one ..
qed

lemma df_keys:
  "set (map county_key (concat (df lib (read_tree stored) plot)))
   = {(STATECD p, COUNTYCD p) | t p.
        t \<in> set (concat stored) \<and> CONDID t = 1 \<and> p \<in> set (concat plot) \<and> CN p = PLT_CN t}"
  by (auto simp: df_def compute_def merge_on_PLT_CN_def read_tree_def county_key_def image_iff)
     force+

lemma result_rows:
  "result lib group_rank tree plot =
     map (\<lambda>k. \<lparr>bio = col_sum lib (map (\<lambda>part. map df_row.bio
                          (filter (\<lambda>r. county_key r = k) part)) (df lib tree plot)),
                carbon = col_sum lib (map (\<lambda>part. map df_row.carbon
                          (filter (\<lambda>r. county_key r = k) part)) (df lib tree plot)),
                STATE = pad 2 (CHR ''0'') (str_int (fst k)),
                COUNTY = pad 3 (CHR ''0'') (str_int (snd k))\<rparr>)
       (sort_key group_rank (remdups (map county_key (concat (df lib tree plot)))))"
  by (simp add: result_def groupby_sum_def compute_def comp_def case_prod_unfold)

lemma set_sort_key_remdups: "set (map f (sort_key g (remdups ks))) = f ` set ks"
  by simp

lemma length_sort_key_remdups: "length (map f (sort_key g (remdups ks))) = card (set ks)"
  by (simp add: length_remdups_card_conv)

text \<open>The decimal rendering: \<open>str_int\<close> gives a decimal string, and the only one.\<close>

lemma decimal_value_snoc:
  "decimal_value (d @ [c]) = 10 * decimal_value d + (of_char c - 48)"
  by (simp add: decimal_value_def)

lemma digit_char:
  assumes "is_digit c"
  shows "(of_char c :: nat) - 48 < 10" and "char_of (48 + ((of_char c :: nat) - 48)) = c"
proof -
  show "(of_char c :: nat) - 48 < 10" using assms by (auto simp: is_digit_def)
  have "48 + ((of_char c :: nat) - 48) = of_char c" using assms by (simp add: is_digit_def)
  then show "char_of (48 + ((of_char c :: nat) - 48)) = c" by simp
qed

lemma char_digit:
  assumes "n < 10"
  shows "is_digit (char_of (48 + n))" and "(of_char (char_of (48 + n) :: char) :: nat) - 48 = n"
  using assms by (simp_all add: is_digit_def)

lemma decimal_value_str_nat: "decimal_value (str_nat n) = n"
proof (induction n rule: str_nat.induct)
  case (1 n)
  show ?case
  proof (cases "n < 10")
    case True
    then show ?thesis by (subst str_nat.simps) (simp add: decimal_value_def)
  next
    case False
    have d: "n mod 10 < 10" by simp
    have "decimal_value (str_nat n) = 10 * decimal_value (str_nat (n div 10)) + n mod 10"
      using False d by (subst str_nat.simps) (simp add: decimal_value_def)
    then show ?thesis using 1 False by simp
  qed
qed

lemma str_nat_digits: "str_nat n \<noteq> [] \<and> list_all is_digit (str_nat n)"
proof (induction n rule: str_nat.induct)
  case (1 n)
  show ?case
  proof (cases "n < 10")
    case True
    then show ?thesis by (subst (1 2) str_nat.simps) (simp add: char_digit(1))
  next
    case False
    have "n mod 10 < 10" by simp
    then have "is_digit (char_of (48 + n mod 10))" by (rule char_digit(1))
    then show ?thesis using 1 False by (subst (1 2) str_nat.simps) simp
  qed
qed

lemma str_nat_leading:
  "length (str_nat n) = 1 \<or> hd (str_nat n) \<noteq> CHR ''0''"
proof (induction n rule: str_nat.induct)
  case (1 n)
  show ?case
  proof (cases "n < 10")
    case True
    then show ?thesis by (subst str_nat.simps) simp
  next
    case False
    then have pos: "0 < n div 10" by simp
    have ne: "str_nat (n div 10) \<noteq> []" using str_nat_digits by blast
    have "hd (str_nat (n div 10)) \<noteq> CHR ''0''"
    proof (cases "n div 10 < 10")
      case True
      have "char_of (48 + n div 10) \<noteq> CHR ''0''"
      proof
        assume "char_of (48 + n div 10) = CHR ''0''"
        then have "(of_char (char_of (48 + n div 10) :: char) :: nat) = of_char (CHR ''0'')"
          by simp
        then show False using True pos by simp
      qed
      then show ?thesis using True by (subst str_nat.simps) simp
    next
      case F: False
      have "length (str_nat (n div 10)) \<noteq> 1"
      proof -
        have "str_nat (n div 10 div 10) \<noteq> []" using str_nat_digits by blast
        then show ?thesis using F by (subst str_nat.simps) simp
      qed
      then show ?thesis using 1 False by blast
    qed
    then have "hd (str_nat n) \<noteq> CHR ''0''"
      using False ne by (subst str_nat.simps) simp
    then show ?thesis ..
  qed
qed

lemma str_nat_numeral: "is_numeral_of n (str_nat n)"
  using str_nat_digits[of n] str_nat_leading[of n] decimal_value_str_nat[of n]
  by (simp add: is_numeral_of_def)

lemma decimal_value_pos:
  "d \<noteq> [] \<Longrightarrow> list_all is_digit d \<Longrightarrow> hd d \<noteq> CHR ''0'' \<Longrightarrow> 0 < decimal_value d"
proof (induction d rule: rev_induct)
  case Nil
  then show ?case by simp
next
  case (snoc c d)
  show ?case
  proof (cases "d = []")
    case True
    have dc: "is_digit c" using snoc.prems(2) by simp
    have "c \<noteq> CHR ''0''" using snoc.prems(3) True by simp
    moreover have "(of_char (CHR ''0'') :: nat) = 48" by simp
    ultimately have "(of_char c :: nat) \<noteq> 48" by (metis of_char_eq_iff)
    then have "0 < (of_char c :: nat) - 48" using dc by (simp add: is_digit_def)
    then show ?thesis using True by (simp add: decimal_value_def)
  next
    case False
    then have "0 < decimal_value d" using snoc by simp
    then show ?thesis by (simp add: decimal_value_snoc)
  qed
qed

lemma numeral_unique: "is_numeral_of n d \<Longrightarrow> d = str_nat n"
proof (induction d arbitrary: n rule: rev_induct)
  case Nil
  then show ?case by (simp add: is_numeral_of_def)
next
  case (snoc c d)
  have dig: "list_all is_digit d" and dc: "is_digit c"
    using snoc.prems by (simp_all add: is_numeral_of_def)
  define a where "a = (of_char c :: nat) - 48"
  have a10: "a < 10" and ca: "char_of (48 + a) = c"
    unfolding a_def using digit_char[OF dc] by simp_all
  have n: "n = 10 * decimal_value d + a"
    using snoc.prems by (simp add: is_numeral_of_def decimal_value_snoc a_def)
  show ?case
  proof (cases "d = []")
    case True
    then have "n = a" using n by (simp add: decimal_value_def)
    then show ?thesis using True a10 ca by (subst str_nat.simps) simp
  next
    case False
    then have lead: "hd d \<noteq> CHR ''0''"
      using snoc.prems by (cases d) (simp_all add: is_numeral_of_def)
    then have num: "is_numeral_of (decimal_value d) d"
      using False dig by (simp add: is_numeral_of_def)
    have d: "d = str_nat (decimal_value d)" by (rule snoc.IH[OF num])
    have "0 < decimal_value d" by (rule decimal_value_pos[OF False dig lead])
    then have big: "\<not> n < 10" and dv: "n div 10 = decimal_value d" and md: "n mod 10 = a"
      using n a10 by simp_all
    have "str_nat n = str_nat (n div 10) @ [char_of (48 + n mod 10)]"
      using big by (subst str_nat.simps) simp
    then show ?thesis using d dv md ca by simp
  qed
qed

lemma is_decimal_of_iff: "is_decimal_of i d \<longleftrightarrow> d = str_int i"
proof (cases "i < 0")
  case True
  show ?thesis
  proof
    assume "is_decimal_of i d"
    then have "d \<noteq> []" "hd d = CHR ''-''" "tl d = str_nat (nat (- i))"
      using True numeral_unique by (simp_all add: is_decimal_of_def)
    then show "d = str_int i" using True by (cases d) (simp_all add: str_int_def)
  next
    assume "d = str_int i"
    then show "is_decimal_of i d"
      using True by (simp add: is_decimal_of_def str_int_def str_nat_numeral)
  qed
next
  case False
  then show ?thesis
    using numeral_unique str_nat_numeral by (auto simp: is_decimal_of_def str_int_def)
qed

text \<open>
  Claim C8. The rows of \<open>result\<close> are exactly these, one for each (state, county)
  pair that occurs among the tree rows with \<open>CONDID = 1\<close> joined to the plots on
  \<open>PLT_CN = CN\<close>: \<open>bio\<close> is the library's sum, over the joined rows of that pair, of
  its quotient by 2000 of its product \<open>DRYBIO_AG * TPA_UNADJ\<close>, and \<open>carbon\<close> the same
  with \<open>CARBON_AG\<close>; \<open>STATE\<close> is the decimal string of the state code with zeros on
  the left up to width 2, and \<open>COUNTY\<close> that of the county code up to width 3. A
  result row has no other column: the numeric codes are gone. This is so for every float
  library and every order of the groups.
\<close>

theorem fia_county_summary:
  "set (result lib group_rank (read_tree stored) plot) =
     {\<lparr>bio = col_sum lib (map (\<lambda>part.
                [col_div lib (col_mul lib (DRYBIO_AG t) (TPA_UNADJ t)) 2000.
                   t \<leftarrow> part, CONDID t = 1, p \<leftarrow> concat plot, CN p = PLT_CN t,
                   (STATECD p, COUNTYCD p) = (s, c)]) stored),
       carbon = col_sum lib (map (\<lambda>part.
                [col_div lib (col_mul lib (CARBON_AG t) (TPA_UNADJ t)) 2000.
                   t \<leftarrow> part, CONDID t = 1, p \<leftarrow> concat plot, CN p = PLT_CN t,
                   (STATECD p, COUNTYCD p) = (s, c)]) stored),
       STATE = replicate (2 - length state_digits) (CHR ''0'') @ state_digits,
       COUNTY = replicate (3 - length county_digits) (CHR ''0'') @ county_digits\<rparr>
      | s c state_digits county_digits.
        (\<exists>t p. t \<in> set (concat stored) \<and> CONDID t = 1 \<and> p \<in> set (concat plot) \<and>
               CN p = PLT_CN t \<and> STATECD p = s \<and> COUNTYCD p = c) \<and>
        is_decimal_of s state_digits \<and> is_decimal_of c county_digits} \<and>
   length (result lib group_rank (read_tree stored) plot) =
     card {(STATECD p, COUNTYCD p) | t p.
             t \<in> set (concat stored) \<and> CONDID t = 1 \<and> p \<in> set (concat plot) \<and> CN p = PLT_CN t}"
proof
  let ?row = "\<lambda>k. \<lparr>bio = col_sum lib (map (\<lambda>part.
                [col_div lib (col_mul lib (DRYBIO_AG t) (TPA_UNADJ t)) 2000.
                   t \<leftarrow> part, CONDID t = 1, p \<leftarrow> concat plot, CN p = PLT_CN t,
                   (STATECD p, COUNTYCD p) = k]) stored),
       carbon = col_sum lib (map (\<lambda>part.
                [col_div lib (col_mul lib (CARBON_AG t) (TPA_UNADJ t)) 2000.
                   t \<leftarrow> part, CONDID t = 1, p \<leftarrow> concat plot, CN p = PLT_CN t,
                   (STATECD p, COUNTYCD p) = k]) stored),
       STATE = pad 2 (CHR ''0'') (str_int (fst k)),
       COUNTY = pad 3 (CHR ''0'') (str_int (snd k))\<rparr>"
  let ?keys = "{(STATECD p, COUNTYCD p) | t p.
             t \<in> set (concat stored) \<and> CONDID t = 1 \<and> p \<in> set (concat plot) \<and> CN p = PLT_CN t}"
  have rows: "result lib group_rank (read_tree stored) plot
      = map ?row (sort_key group_rank (remdups (map county_key
          (concat (df lib (read_tree stored) plot)))))"
    unfolding result_rows df_group_bio df_group_carbon ..
  have s: "set (result lib group_rank (read_tree stored) plot) = ?row ` ?keys"
    unfolding rows set_sort_key_remdups df_keys ..
  show "length (result lib group_rank (read_tree stored) plot) = card ?keys"
    unfolding rows length_sort_key_remdups df_keys ..
  show "set (result lib group_rank (read_tree stored) plot) =
     {\<lparr>bio = col_sum lib (map (\<lambda>part.
                [col_div lib (col_mul lib (DRYBIO_AG t) (TPA_UNADJ t)) 2000.
                   t \<leftarrow> part, CONDID t = 1, p \<leftarrow> concat plot, CN p = PLT_CN t,
                   (STATECD p, COUNTYCD p) = (s, c)]) stored),
       carbon = col_sum lib (map (\<lambda>part.
                [col_div lib (col_mul lib (CARBON_AG t) (TPA_UNADJ t)) 2000.
                   t \<leftarrow> part, CONDID t = 1, p \<leftarrow> concat plot, CN p = PLT_CN t,
                   (STATECD p, COUNTYCD p) = (s, c)]) stored),
       STATE = replicate (2 - length state_digits) (CHR ''0'') @ state_digits,
       COUNTY = replicate (3 - length county_digits) (CHR ''0'') @ county_digits\<rparr>
      | s c state_digits county_digits.
        (\<exists>t p. t \<in> set (concat stored) \<and> CONDID t = 1 \<and> p \<in> set (concat plot) \<and>
               CN p = PLT_CN t \<and> STATECD p = s \<and> COUNTYCD p = c) \<and>
        is_decimal_of s state_digits \<and> is_decimal_of c county_digits}"
    (is "_ = ?R")
  proof -
    define group where "group = (\<lambda>s c. \<exists>t p. t \<in> set (concat stored) \<and> CONDID t = 1 \<and>
        p \<in> set (concat plot) \<and> CN p = PLT_CN t \<and> STATECD p = s \<and> COUNTYCD p = c)"
    define row where "row = ?row"
    define padded where "padded = (\<lambda>s c state_digits county_digits.
      \<lparr>bio = col_sum lib (map (\<lambda>part.
                [col_div lib (col_mul lib (DRYBIO_AG t) (TPA_UNADJ t)) 2000.
                   t \<leftarrow> part, CONDID t = 1, p \<leftarrow> concat plot, CN p = PLT_CN t,
                   (STATECD p, COUNTYCD p) = (s, c)]) stored),
       carbon = col_sum lib (map (\<lambda>part.
                [col_div lib (col_mul lib (CARBON_AG t) (TPA_UNADJ t)) 2000.
                   t \<leftarrow> part, CONDID t = 1, p \<leftarrow> concat plot, CN p = PLT_CN t,
                   (STATECD p, COUNTYCD p) = (s, c)]) stored),
       STATE = replicate (2 - length state_digits) (CHR ''0'') @ state_digits,
       COUNTY = replicate (3 - length county_digits) (CHR ''0'') @ county_digits\<rparr>)"
    have eq: "padded s c (str_int s) (str_int c) = row (s, c)" for s c
      unfolding padded_def row_def pad_def fst_conv snd_conv ..
    have R: "?R = {padded s c state_digits county_digits | s c state_digits county_digits.
        group s c \<and> state_digits = str_int s \<and> county_digits = str_int c}"
      unfolding padded_def group_def is_decimal_of_iff ..
    have K: "?keys = {(s, c) | s c. group s c}"
      unfolding group_def by blast
    have "{padded s c state_digits county_digits | s c state_digits county_digits.
        group s c \<and> state_digits = str_int s \<and> county_digits = str_int c}
      = {padded s c (str_int s) (str_int c) | s c. group s c}"
      by blast
    then have "{padded s c state_digits county_digits | s c state_digits county_digits.
        group s c \<and> state_digits = str_int s \<and> county_digits = str_int c}
      = {row (s, c) | s c. group s c}"
      unfolding eq .
    with R have "?R = {row (s, c) | s c. group s c}" by (rule trans)
    also have "\<dots> = row ` ?keys" unfolding K by blast
    finally have "?R = ?row ` ?keys" unfolding row_def .
    then show ?thesis unfolding s ..
  qed
qed

text \<open>
  Two partitions with the float library of the worked inputs: county 001 of state 01 has
  the rounded \<open>1.0 * 1.0 / 2000\<close> and \<open>12.0\<close> to add, its tree without biomass being
  skipped, and county 003 has one tree. The sums are the doubles \<open>12.0005\<close>,
  \<open>6.50025\<close>, \<open>6.0\<close> and \<open>3.0\<close>.
\<close>

theorem fia_county_summary_witness:
  "result float64_lib id (read_tree trees) plots =
     [\<lparr>bio = Some (6755680916032455, - 49), carbon = Some (7318630869453767, - 50),
       STATE = ''01'', COUNTY = ''001''\<rparr>,
      \<lparr>bio = Some (6755399441055744, - 50), carbon = Some (6755399441055744, - 51),
       STATE = ''01'', COUNTY = ''003''\<rparr>] \<and>
   length (result float64_lib id (read_tree trees) plots) = 2 \<and>
   (\<exists>s c state_digits county_digits.
      is_decimal_of s state_digits \<and> is_decimal_of c county_digits \<and>
      ''01'' = replicate (2 - length state_digits) (CHR ''0'') @ state_digits \<and>
      ''001'' = replicate (3 - length county_digits) (CHR ''0'') @ county_digits) \<and>
   is_decimal_of 1 ''1'' \<and> \<not> is_decimal_of 1 ''01''"
proof -
  define r1 :: "float64 result_row" where
    "r1 = \<lparr>bio = Some (6755680916032455, - 49), carbon = Some (7318630869453767, - 50),
           STATE = ''01'', COUNTY = ''001''\<rparr>"
  define r2 :: "float64 result_row" where
    "r2 = \<lparr>bio = Some (6755399441055744, - 50), carbon = Some (6755399441055744, - 51),
           STATE = ''01'', COUNTY = ''003''\<rparr>"
  note summary = fia_county_summary[where lib = float64_lib and group_rank = id
      and stored = trees and plot = plots]
  have a: "result float64_lib id (read_tree trees) plots = [r1, r2]"
    unfolding r1_def r2_def by code_simp
  then have l: "length (result float64_lib id (read_tree trees) plots) = 2" by simp
  have m: "r1 \<in> set (result float64_lib id (read_tree trees) plots)" unfolding a by simp
  have "\<exists>s c state_digits county_digits.
      is_decimal_of s state_digits \<and> is_decimal_of c county_digits \<and>
      STATE r1 = replicate (2 - length state_digits) (CHR ''0'') @ state_digits \<and>
      COUNTY r1 = replicate (3 - length county_digits) (CHR ''0'') @ county_digits"
    using m unfolding conjunct1[OF summary] by force
  moreover have "STATE r1 = ''01''" and "COUNTY r1 = ''001''" unfolding r1_def by simp_all
  ultimately have e: "\<exists>s c state_digits county_digits.
      is_decimal_of s state_digits \<and> is_decimal_of c county_digits \<and>
      ''01'' = replicate (2 - length state_digits) (CHR ''0'') @ state_digits \<and>
      ''001'' = replicate (3 - length county_digits) (CHR ''0'') @ county_digits"
    by simp
  have d: "is_decimal_of 1 ''1'' \<and> \<not> is_decimal_of 1 ''01''" by code_simp
  from a l e d show ?thesis unfolding r1_def r2_def by blast
qed

text \<open>
  The float library on its own: \<open>1.0 * 1.0 / 2000\<close> is the double nearest to
  \<open>0.0005\<close>, and \<open>0.1 + 0.2 + 0.3\<close> with a NaN between is \<open>0.6\<close>, where adding
  from left to right without the compensation gives the next double.
\<close>

lemma float64_lib_examples:
  "col_div float64_lib (col_mul float64_lib (Some (1, 0)) (Some (1, 0))) 2000
     = Some (4611686018427388, - 63) \<and>
   col_mul float64_lib None (Some (1, 0)) = None \<and>
   col_sum float64_lib
     [[Some (3602879701896397, - 55), None, Some (3602879701896397, - 54),
       Some (5404319552844595, - 54)]]
     = Some (5404319552844595, - 53) \<and>
   double_add (double_add (3602879701896397, - 55) (3602879701896397, - 54))
       (5404319552844595, - 54)
     = (5404319552844596, - 53) \<and>
   col_sum float64_lib [[None], []] = Some (0, 0)"
  by code_simp

text \<open>
  With arithmetic on real numbers the sum of a group, taken partition by partition, is the
  sum over the joined rows of the group.
\<close>

lemma exact_lib_sum:
  "col_sum exact_lib (map (\<lambda>part.
       [col_div exact_lib (col_mul exact_lib (a t) (b t)) 2000.
          t \<leftarrow> part, CONDID t = 1, p \<leftarrow> plot, CN p = PLT_CN t, (STATECD p, COUNTYCD p) = k]) stored)
   = sum_list [a t * b t / 2000.
          t \<leftarrow> concat stored, CONDID t = 1, p \<leftarrow> plot, CN p = PLT_CN t, (STATECD p, COUNTYCD p) = k]"
proof -
  have ops: "col_div exact_lib (col_mul exact_lib x y) 2000 = x * y / 2000"
    "col_sum exact_lib partitions = sum_list (concat partitions)" for x y partitions
    by (simp_all add: exact_lib_def)
  show ?thesis unfolding ops by (induction stored) simp_all
qed
section \<open>Properties of the MLHub session\<close>












text \<open>
  A path without the leading slash stays under the root, a call with a \<open>key\<close> of its
  own sends that one, and a reference that \<open>urljoin\<close> refuses sends nothing.
\<close>

lemma mlhub_request_examples:
  "get cpython_urljoin MLHUB_ROOT_URL (MLHubSession (Some ''0123''))
       ''archive/ref_african_crops_kenya_01_labels''
     = Inr \<lparr>req_method = ''GET'',
            req_url = ''https://api.radiant.earth/mlhub/v1/archive/ref_african_crops_kenya_01_labels'',
            req_params = [(''key'', ''0123'')]\<rparr> \<and>
   request cpython_urljoin MLHUB_ROOT_URL (MLHubSession (Some ''0123'')) ''get''
       ''/datasets'' [(''key'', Some ''9'')]
     = Inr \<lparr>req_method = ''GET'', req_url = ''https://api.radiant.earth/datasets'',
            req_params = [(''key'', ''9'')]\<rparr> \<and>
   get cpython_urljoin MLHUB_ROOT_URL (MLHubSession (Some ''0123'')) ''//[x/datasets''
     = Inl ValueError"
  by code_simp
section \<open>Properties of signing\<close>

lemma base_path_append_query: "base_path (base_path h @ CHR ''?'' # t) = base_path h"
  by (simp add: base_path_def takeWhile_tail)

lemma base_path_unsigned: "\<not> is_signed h \<Longrightarrow> base_path h = h"
  by (auto simp: base_path_def is_signed_def)

lemma base_path_sign_href: "base_path (sign_href s h) = base_path h"
  using base_path_append_query[of h] base_path_unsigned[of h]
  by (auto simp: sign_href_def)

lemma base_path_prefix: "prefix (base_path h) h"
  by (simp add: base_path_def takeWhile_is_prefix)

text \<open>
  Claim C3. For every asset reference, signing it a second time yields an href whose
  unsigned base path is the base path of the original href, whether the signer leaves a
  signed href alone or signs it afresh. Signing is additive: the result keeps the base
  path as a prefix, an unsigned href is a prefix of its signed form, and the media type
  and the extra fields are untouched. A signer that leaves signed hrefs alone is
  idempotent.
\<close>

theorem signing_keeps_base_path:
  "base_path (href (sign s (sign s a))) = base_path (href a) \<and>
   prefix (base_path (href a)) (href (sign s (sign s a))) \<and>
   (\<not> is_signed (href a) \<longrightarrow> prefix (href a) (href (sign s a))) \<and>
   (\<not> re_signs s \<longrightarrow> sign s (sign s a) = sign s a) \<and>
   media_type (sign s (sign s a)) = media_type a \<and>
   extra_fields (sign s (sign s a)) = extra_fields a"
proof -
  have 1: "base_path (href (sign s (sign s a))) = base_path (href a)"
    by (simp add: sign_def base_path_sign_href)
  have 2: "prefix (base_path (href a)) (href (sign s (sign s a)))"
    using base_path_prefix[of "href (sign s (sign s a))"] by (simp only: 1)
  have 3: "\<not> is_signed (href a) \<longrightarrow> prefix (href a) (href (sign s a))"
    by (simp add: sign_def sign_href_def)
  have 4: "\<not> re_signs s \<longrightarrow> sign s (sign s a) = sign s a"
    by (auto simp: sign_def sign_href_def is_signed_def base_path_def)
  show ?thesis using 1 2 3 4 by (simp add: sign_def)
qed


theorem signing_keeps_base_path_witness:
  "\<not> is_signed ''https://naipeuwest.blob.core.windows.net/naip/m.tif'' \<and>
   \<not> re_signs blob_signer \<and>
   href (sign blob_signer
     \<lparr>href = ''https://naipeuwest.blob.core.windows.net/naip/m.tif'',
      media_type = ''image/tiff'', extra_fields = []\<rparr>)
     = ''https://naipeuwest.blob.core.windows.net/naip/m.tif?st=2023-04-01&se=2023-04-02&sp=rl&sig=abc'' \<and>
   sign blob_signer (sign blob_signer
     \<lparr>href = ''https://naipeuwest.blob.core.windows.net/naip/m.tif'',
      media_type = ''image/tiff'', extra_fields = []\<rparr>)
     = sign blob_signer
     \<lparr>href = ''https://naipeuwest.blob.core.windows.net/naip/m.tif'',
      media_type = ''image/tiff'', extra_fields = []\<rparr> \<and>
   base_path (href (sign blob_signer (sign blob_signer
     \<lparr>href = ''https://naipeuwest.blob.core.windows.net/naip/m.tif'',
      media_type = ''image/tiff'', extra_fields = []\<rparr>)))
     = ''https://naipeuwest.blob.core.windows.net/naip/m.tif''"
proof -
  let ?a = "\<lparr>href = ''https://naipeuwest.blob.core.windows.net/naip/m.tif'',
      media_type = ''image/tiff'', extra_fields = []\<rparr>"
  have u: "\<not> is_signed ''https://naipeuwest.blob.core.windows.net/naip/m.tif''"
    by (simp add: is_signed_def)
  have r: "\<not> re_signs blob_signer" by (simp add: blob_signer_def)
  have b: "base_path ''https://naipeuwest.blob.core.windows.net/naip/m.tif''
             = ''https://naipeuwest.blob.core.windows.net/naip/m.tif''"
    by (simp add: base_path_def)
  have h: "href (sign blob_signer ?a)
     = ''https://naipeuwest.blob.core.windows.net/naip/m.tif?st=2023-04-01&se=2023-04-02&sp=rl&sig=abc''"
    by (simp add: sign_def sign_href_def blob_signer_def is_signed_def b)
  show ?thesis
    using u r h b signing_keeps_base_path [of blob_signer ?a] by (simp add: base_path_def)
qed


section \<open>Properties of the mosaic round trip\<close>

lemma strip_prefix_append: "strip_prefix p (p @ s) = Some s"
  by (simp add: strip_prefix_def)

lemma takeWhile_until: "c \<notin> set s \<Longrightarrow> takeWhile (\<lambda>x. x \<noteq> c) (s @ c # t) = s"
  by (induction s) auto

lemma dropWhile_until: "c \<notin> set s \<Longrightarrow> dropWhile (\<lambda>x. x \<noteq> c) (s @ c # t) = c # t"
  by (induction s) auto

lemma get_json_tilejson:
  assumes "CHR ''/'' \<notin> set sid"
  shows "get_json (pc_data_api assign_id default_options)
           (data_api_root @ ''/mosaic/'' @ sid @ ''/tilejson.json'' @ ''?'' @ q)
         = Inr \<lparr>tiles = [data_api_root @ ''/mosaic/tiles/'' @ sid
                           @ ''/WebMercatorQuad/{z}/{x}/{y}@1x?'' @ quote_plus_space q],
                minzoom = 0, maxzoom = 24\<rparr>"
proof -
  have a: "takeWhile (\<lambda>c. c \<noteq> CHR ''/'') (sid @ ''/tilejson.json?'' @ q) = sid"
    using takeWhile_until[OF assms, of "''tilejson.json?'' @ q"] by simp
  have b: "dropWhile (\<lambda>c. c \<noteq> CHR ''/'') (sid @ ''/tilejson.json?'' @ q) = ''/tilejson.json?'' @ q"
    using dropWhile_until[OF assms, of "''tilejson.json?'' @ q"] by simp
  have c: "strip_prefix (data_api_root @ ''/mosaic/'')
             (data_api_root @ ''/mosaic/'' @ sid @ ''/tilejson.json'' @ ''?'' @ q)
           = Some (sid @ ''/tilejson.json?'' @ q)"
    using strip_prefix_append[of "data_api_root @ ''/mosaic/''" "sid @ ''/tilejson.json?'' @ q"]
    by simp
  have d: "strip_prefix ''/tilejson.json?'' (''/tilejson.json?'' @ q) = Some q"
    by (rule strip_prefix_append)
  show ?thesis
    by (simp add: pc_data_api_def c a b d Let_def del: append.simps append_assoc)
qed


lemma sublist_middle: "sublist s (a @ s @ b)"
  by (rule sublist_appendI)

lemma mosaic_map_hands_template_on:
  assumes "mosaic_map api coll flt cid aoi c = Inr st"
  shows "\<exists>t. mosaic_tiles api coll flt cid = Inr t \<and>
           objs st (layers (m_map st) ! 1) = Some \<lparr>kind = TileLayer, url = t, data = None\<rparr>"
  using assms
  by (auto simp: mosaic_map_def add_layer_def new_map_def Let_def split: sum.splits)

text \<open>
  Claim C1. For every registration the service accepts (its identifier has no \<open>/\<close>),
  posting \<open>{collection, filter}\<close> returns the searchid with its links; fetching the
  tilejson link with the collection's default render options then yields a tile-URL
  template that contains the searchid verbatim; and the \<open>TileLayer\<close> added to the map
  has exactly that template as its url.
\<close>

theorem mosaic_round_trip:
  assumes "assign_id \<lparr>collection = coll, filter_json = flt\<rparr> = Some sid" "CHR ''/'' \<notin> set sid"
  shows "\<exists>registered template st.
           post_register (pc_data_api assign_id default_options)
               \<lparr>collection = coll, filter_json = flt\<rparr> = Inr registered \<and>
           searchid registered = sid \<and>
           mosaic_tiles (pc_data_api assign_id default_options) coll flt cid = Inr template \<and>
           sublist sid template \<and>
           mosaic_map (pc_data_api assign_id default_options) coll flt cid aoi c = Inr st \<and>
           objs st (layers (m_map st) ! 1) = Some \<lparr>kind = TileLayer, url = template, data = None\<rparr>"
proof -
  let ?api = "pc_data_api assign_id default_options"
  let ?reg = "\<lparr>searchid = sid,
                links = [\<lparr>link_rel = ''metadata'', link_type = ''application/json'',
                          link_href = data_api_root @ ''/mosaic/'' @ sid @ ''/info''\<rparr>,
                         \<lparr>link_rel = ''tilejson'', link_type = ''application/json'',
                          link_href = data_api_root @ ''/mosaic/'' @ sid @ ''/tilejson.json''\<rparr>]\<rparr>"
  let ?q = "''collection='' @ cid @ ''&'' @ default_options cid"
  let ?t = "data_api_root @ ''/mosaic/tiles/'' @ sid
              @ ''/WebMercatorQuad/{z}/{x}/{y}@1x?'' @ quote_plus_space ?q"
  have reg: "post_register ?api \<lparr>collection = coll, filter_json = flt\<rparr> = Inr ?reg"
    using assms(1) by (simp add: pc_data_api_def)
  have info: "get_mosaic_info ?api cid = Inr \<lparr>renderOptions = [\<lparr>options = default_options cid\<rparr>]\<rparr>"
    by (simp add: pc_data_api_def)
  have tj: "get_json ?api (data_api_root @ ''/mosaic/'' @ sid @ ''/tilejson.json'' @ ''?'' @ ?q)
      = Inr \<lparr>tiles = [?t], minzoom = 0, maxzoom = 24\<rparr>"
    by (rule get_json_tilejson[OF assms(2)])
  have tiles: "mosaic_tiles ?api coll flt cid = Inr ?t"
    using tj by (simp add: mosaic_tiles_def reg info item_at_def Let_def)
  have sub: "sublist sid ?t"
    using sublist_middle[of sid "data_api_root @ ''/mosaic/tiles/''"] by simp
  have shown: "\<exists>st. mosaic_map ?api coll flt cid aoi c = Inr st \<and>
      objs st (layers (m_map st) ! 1) = Some \<lparr>kind = TileLayer, url = ?t, data = None\<rparr>"
    by (simp add: mosaic_map_def tiles add_layer_def new_map_def Let_def)
  from reg tiles sub shown show ?thesis by auto
qed


theorem mosaic_round_trip_witness:
  "recorded_assign \<lparr>collection = ''sentinel-2-l2a'', filter_json = recorded_filter\<rparr>
     = Some ''125b5f36fbc3a2e80e011495798a9739'' \<and>
   CHR ''/'' \<notin> set ''125b5f36fbc3a2e80e011495798a9739'' \<and>
   mosaic_tiles (pc_data_api recorded_assign (\<lambda>c. recorded_options))
       ''sentinel-2-l2a'' recorded_filter ''sentinel-2-l2a''
     = Inr ''https://planetarycomputer.microsoft.com/api/data/v1/mosaic/tiles/125b5f36fbc3a2e80e011495798a9739/WebMercatorQuad/{z}/{x}/{y}@1x?collection=sentinel-2-l2a&assets=B04&assets=B03&assets=B02&nodata=0&color_formula=Gamma+RGB+3.2+Saturation+0.8+Sigmoidal+RGB+25+0.35'' \<and>
   sublist ''125b5f36fbc3a2e80e011495798a9739''
     ''https://planetarycomputer.microsoft.com/api/data/v1/mosaic/tiles/125b5f36fbc3a2e80e011495798a9739/WebMercatorQuad/{z}/{x}/{y}@1x?collection=sentinel-2-l2a&assets=B04&assets=B03&assets=B02&nodata=0&color_formula=Gamma+RGB+3.2+Saturation+0.8+Sigmoidal+RGB+25+0.35''"
proof -
  let ?api = "pc_data_api recorded_assign (\<lambda>c. recorded_options)"
  have a: "recorded_assign \<lparr>collection = ''sentinel-2-l2a'', filter_json = recorded_filter\<rparr>
     = Some ''125b5f36fbc3a2e80e011495798a9739''"
    by (simp add: recorded_assign_def)
  have b: "CHR ''/'' \<notin> set ''125b5f36fbc3a2e80e011495798a9739''" by simp
  have t: "mosaic_tiles ?api ''sentinel-2-l2a'' recorded_filter ''sentinel-2-l2a''
     = Inr ''https://planetarycomputer.microsoft.com/api/data/v1/mosaic/tiles/125b5f36fbc3a2e80e011495798a9739/WebMercatorQuad/{z}/{x}/{y}@1x?collection=sentinel-2-l2a&assets=B04&assets=B03&assets=B02&nodata=0&color_formula=Gamma+RGB+3.2+Saturation+0.8+Sigmoidal+RGB+25+0.35''"
    by (simp add: mosaic_tiles_def pc_data_api_def recorded_assign_def recorded_options_def
        item_at_def strip_prefix_def data_api_root_def quote_plus_space_def Let_def)
  from a b mosaic_round_trip [where assign_id = recorded_assign and coll = "''sentinel-2-l2a''"
      and flt = recorded_filter and sid = "''125b5f36fbc3a2e80e011495798a9739''"
      and default_options = "\<lambda>c. recorded_options" and cid = "''sentinel-2-l2a''"]
  have "sublist ''125b5f36fbc3a2e80e011495798a9739''
     ''https://planetarycomputer.microsoft.com/api/data/v1/mosaic/tiles/125b5f36fbc3a2e80e011495798a9739/WebMercatorQuad/{z}/{x}/{y}@1x?collection=sentinel-2-l2a&assets=B04&assets=B03&assets=B02&nodata=0&color_formula=Gamma+RGB+3.2+Saturation+0.8+Sigmoidal+RGB+25+0.35''"
    unfolding t by auto
  with a b t show ?thesis by simp
qed


section \<open>Properties of the catalog search\<close>

lemma take_items_Some: "take_items (Some n) ps = take n (concat ps)"
  by (induction ps arbitrary: n) auto

lemma take_items_None: "take_items None ps = concat ps"
  by (induction ps) auto

lemma set_take_items: "set (take_items cap ps) \<subseteq> set (concat ps)"
  by (cases cap) (auto simp: take_items_Some take_items_None dest: in_set_takeD)

lemma concat_paginate: "concat (paginate n xs) = (if n = 0 then [] else xs)"
proof (induction n xs rule: paginate.induct)
  case (1 n xs)
  show ?case
  proof (cases "n = 0 \<or> xs = []")
    case True
    then show ?thesis by (subst paginate.simps) auto
  next
    case False
    then have "concat (paginate n xs) = take n xs @ concat (paginate n (drop n xs))"
      by (subst paginate.simps) simp
    then show ?thesis using 1 False by simp
  qed
qed

lemma set_search_pages: "set (concat (search_pages api req)) \<subseteq> {it \<in> set (catalog api). matches req it}"
  by (auto simp: search_pages_def concat_paginate Let_def split: if_splits)

lemma item_collection_matches: "list_all (matches req) (item_collection api req)"
  using set_take_items[of "max_items req" "search_pages api req"] set_search_pages[of api req]
  by (auto simp: item_collection_def list_all_iff)

text \<open>
  Claim C2. A search with result cap \<open>N\<close> returns at most \<open>N\<close> item records, each of
  which the request selects. For the notebook's search (collection \<open>sentinel-2-l2a\<close>,
  datetime 2023-04-01, cap 200) that is at most 200 items, each of that collection and
  with a timestamp on 2023-04-01. Every item record carries a geometry: \<open>item_geometry\<close>
  is a total field of the record, as in the data model of the spec.
\<close>

theorem search_respects_cap:
  "length (item_collection api (req\<lparr>max_items := Some n\<rparr>)) \<le> n \<and>
   list_all (matches (req\<lparr>max_items := Some n\<rparr>)) (item_collection api (req\<lparr>max_items := Some n\<rparr>)) \<and>
   length (item_collection api sentinel_search) \<le> 200 \<and>
   list_all (\<lambda>it. collection_id it = ''sentinel-2-l2a'' \<and>
               (\<exists>t. item_datetime it = Some t \<and> year t = 2023 \<and> month t = 4 \<and> day t = 1))
     (item_collection api sentinel_search)"
proof -
  have 1: "length (item_collection api (req\<lparr>max_items := Some n\<rparr>)) \<le> n"
    by (simp add: item_collection_def take_items_Some)
  have 2: "length (item_collection api sentinel_search) \<le> 200"
    by (simp add: item_collection_def take_items_Some sentinel_search_def)
  have "matches sentinel_search it \<Longrightarrow> collection_id it = ''sentinel-2-l2a'' \<and>
               (\<exists>t. item_datetime it = Some t \<and> year t = 2023 \<and> month t = 4 \<and> day t = 1)" for it
    by (auto simp: matches_def sentinel_search_def on_date_def split: option.splits)
  then have 3: "list_all (\<lambda>it. collection_id it = ''sentinel-2-l2a'' \<and>
               (\<exists>t. item_datetime it = Some t \<and> year t = 2023 \<and> month t = 4 \<and> day t = 1))
     (item_collection api sentinel_search)"
    using item_collection_matches[of sentinel_search api] by (auto simp: list_all_iff)
  from 1 2 3 item_collection_matches show ?thesis by blast
qed

lemma search_example:
  "map item_id (item_collection small_api (sentinel_search\<lparr>max_items := Some 3\<rparr>))
     = [''e'', ''d'', ''f'']"
  by code_simp

end
